theory Spec2Isabelle
  imports Main "HOL-Library.Sublist" "HOL-Library.AList" "HOL-Library.Log_Nat"
begin

section \<open>Text primitives\<close>

text \<open>
  A Python \<^verbatim>\<open>str\<close> is a sequence of code points.  The model uses \<^typ>\<open>string\<close>, whose
  characters are the 256 code points of Latin-1 (ASCII in the lower half); \<^const>\<open>length\<close>
  counts code points, as Python's \<^verbatim>\<open>len\<close> does.

  \<^verbatim>\<open>str.lower()\<close> on these code points maps A-Z and the accented capitals
  (192-222 except the multiplication sign 215) to the letter 32 places further on and
  leaves everything else alone.
\<close>

definition lower_chr :: "char \<Rightarrow> char" where
  "lower_chr c =
     (let n = (of_char c :: nat)
      in if (65 \<le> n \<and> n \<le> 90) \<or> (192 \<le> n \<and> n \<le> 222 \<and> n \<noteq> 215)
         then char_of (n + 32) else c)"

definition lower :: "string \<Rightarrow> string" where
  "lower s = map lower_chr s"

text \<open>
  \<^verbatim>\<open>str.upper()\<close> maps a-z and the accented small letters (224-254 except the division
  sign 247) to the letter 32 places before, and the sharp s (223) to the two letters SS.
  The images of the micro sign (181) and of y with diaeresis (255) lie outside Latin-1;
  they are no ASCII letters, and the model keeps the character itself in their place.
\<close>

definition upper_chr :: "char \<Rightarrow> string" where
  "upper_chr c =
     (let n = (of_char c :: nat)
      in if (97 \<le> n \<and> n \<le> 122) \<or> (224 \<le> n \<and> n \<le> 254 \<and> n \<noteq> 247)
         then [char_of (n - 32)]
         else if n = 223 then ''SS'' else [c])"

definition upper :: "string \<Rightarrow> string" where
  "upper s = concat (map upper_chr s)"

text \<open>Python's \<^verbatim>\<open>kw in s\<close> on strings: \<open>kw\<close> occurs in \<open>s\<close> as a contiguous block.\<close>

fun contains :: "string \<Rightarrow> string \<Rightarrow> bool" where
  "contains kw [] = (kw = [])"
| "contains kw (c # cs) = (prefix kw (c # cs) \<or> contains kw cs)"

section \<open>Results phase: the decision label\<close>

text \<open>
  \<^verbatim>\<open>phase_results\<close> upper-cases the coordinator's output and scans it with an
  \<^verbatim>\<open>if / elif / else\<close> chain; the first branch that applies decides.
\<close>

definition final_decision :: "string \<Rightarrow> string" where
  "final_decision result =
     (let result_str = upper result
      in if contains ''APPROVED'' result_str \<or> contains ''APPROVE'' result_str
         then ''APPROVED''
         else if contains ''REJECTED'' result_str \<or> contains ''REJECT'' result_str
         then ''REJECTED''
         else ''CONDITIONAL'')"

section \<open>Regular expressions of the output validator\<close>

text \<open>
  The validator's patterns use literal characters, the classes \<^verbatim>\<open>\w\<close>, \<^verbatim>\<open>\s\<close>,
  \<^verbatim>\<open>\d\<close>, one bracket class, the quantifiers \<^verbatim>\<open>*\<close> and \<^verbatim>\<open>+\<close> on a single
  class, and one top-level alternation.  They are searched with
  \<^verbatim>\<open>re.IGNORECASE | re.MULTILINE\<close>; no pattern has an anchor, so only the case
  folding matters.  The classes are those of Python's Unicode-aware \<^verbatim>\<open>re\<close> on the
  code points below 256.
\<close>

definition is_word :: "char \<Rightarrow> bool" where
  "is_word c =
     (let n = (of_char c :: nat)
      in (48 \<le> n \<and> n \<le> 57) \<or> (65 \<le> n \<and> n \<le> 90) \<or> n = 95 \<or> (97 \<le> n \<and> n \<le> 122)
         \<or> n = 170 \<or> n = 178 \<or> n = 179 \<or> n = 181 \<or> n = 185 \<or> n = 186
         \<or> (188 \<le> n \<and> n \<le> 190) \<or> (192 \<le> n \<and> n \<le> 214)
         \<or> (216 \<le> n \<and> n \<le> 246) \<or> 248 \<le> n)"

definition is_space :: "char \<Rightarrow> bool" where
  "is_space c =
     (let n = (of_char c :: nat)
      in (9 \<le> n \<and> n \<le> 13) \<or> (28 \<le> n \<and> n \<le> 32) \<or> n = 133 \<or> n = 160)"

definition is_digit :: "char \<Rightarrow> bool" where
  "is_digit c = (let n = (of_char c :: nat) in 48 \<le> n \<and> n \<le> 57)"

datatype cls = Lit char | Word | Space | Digit | OneOf "char list"

text \<open>Under \<^verbatim>\<open>re.IGNORECASE\<close> a literal matches a character of either case.\<close>

fun cmatch :: "cls \<Rightarrow> char \<Rightarrow> bool" where
  "cmatch (Lit c) x = (lower_chr x = lower_chr c)"
| "cmatch Word x = is_word x"
| "cmatch Space x = is_space x"
| "cmatch Digit x = is_digit x"
| "cmatch (OneOf cs) x = (lower_chr x \<in> set (map lower_chr cs))"

datatype item = One cls | Star cls | Plus cls

type_synonym pattern = "item list"

text \<open>A regular expression is a list of alternatives, each a sequence of items.\<close>

type_synonym regex = "pattern list"

definition lit :: "string \<Rightarrow> pattern" where
  "lit s = map (\<lambda>c. One (Lit c)) s"

text \<open>\<open>pmatch p s\<close>: some prefix of \<open>s\<close> matches the sequence \<open>p\<close>.\<close>

fun pmatch :: "pattern \<Rightarrow> string \<Rightarrow> bool" where
  "pmatch [] s = True"
| "pmatch (One k # p) [] = False"
| "pmatch (One k # p) (x # xs) = (cmatch k x \<and> pmatch p xs)"
| "pmatch (Star k # p) [] = pmatch p []"
| "pmatch (Star k # p) (x # xs) = (pmatch p (x # xs) \<or> (cmatch k x \<and> pmatch (Star k # p) xs))"
| "pmatch (Plus k # p) [] = False"
| "pmatch (Plus k # p) (x # xs) = (cmatch k x \<and> pmatch (Star k # p) xs)"

text \<open>\<^verbatim>\<open>re.search\<close>: a match may start at any position.\<close>

fun search_seq :: "pattern \<Rightarrow> string \<Rightarrow> bool" where
  "search_seq p [] = pmatch p []"
| "search_seq p (x # xs) = (pmatch p (x # xs) \<or> search_seq p xs)"

definition re_search :: "regex \<Rightarrow> string \<Rightarrow> bool" where
  "re_search r s = list_ex (\<lambda>p. search_seq p s) r"

section \<open>Output validator\<close>

definition CODE_PATTERNS :: "regex list" where
  "CODE_PATTERNS =
   [ [lit ''```'' @ [Star Word, One (Lit CHR 0x0A)]],
     [lit ''#include'' @ [Plus Space, One (Lit CHR ''<'')]],
     [lit ''import'' @ [Plus Space, Plus Word, Plus Space] @ lit ''from''],
     [lit ''def'' @ [Plus Space, Plus Word, Star Space, One (Lit CHR ''('')]],
     [lit ''class'' @ [Plus Space, Plus Word, Star Space, One (OneOf '':('')]],
     [lit ''function'' @ [Plus Space, Plus Word, Star Space, One (Lit CHR ''('')]],
     [lit ''<?php''],
     [lit ''<!DOCTYPE''],
     [lit ''<script''],
     [lit ''glsl'', lit ''shader'', lit ''vertex'', lit ''fragment''],
     [lit ''layout'' @ [Star Space] @ lit ''(location''],
     [lit ''gl_Position''],
     [lit ''#version'' @ [Plus Space, Plus Digit]],
     [lit ''int'' @ [Plus Space] @ lit ''main'' @ [Star Space, One (Lit CHR ''('')]],
     [lit ''public'' @ [Plus Space] @ lit ''static'' @ [Plus Space] @ lit ''void''
        @ [Plus Space] @ lit ''main''],
     [lit ''---'' @ [One (Lit CHR 0x0A)] @ lit ''layout:''],
     [lit ''$$'' @ [Star Space, One (Lit CHR 0x5C)] @ lit ''begin{''] ]"

definition CODE_KEYWORDS :: "string list" where
  "CODE_KEYWORDS =
   [''jupyter'', ''notebook'', ''algorithm'', ''implementation'',
    ''compile'', ''runtime'', ''binary'', ''pointer'', ''malloc'',
    ''vertex'', ''shader'', ''rendering'', ''opengl'', ''webgl'',
    ''array'', ''buffer'', ''matrix multiplication'', ''gpu'',
    ''tensorflow'', ''pytorch'', ''neural network architecture'',
    ''docker'', ''kubernetes'', ''api endpoint'', ''sql query'']"

definition policy_keywords :: "string list" where
  "policy_keywords =
   [''policy'', ''carbon tax'', ''economic'', ''fiscal'', ''impact'',
    ''government'', ''revenue'', ''emission'', ''climate'', ''environment'',
    ''stakeholder'', ''implementation'', ''analysis'', ''evidence'']"

text \<open>
  The reason of a verdict.  The source renders it as a message; the message of a code
  pattern names the pattern, here by its position in \<^const>\<open>CODE_PATTERNS\<close>, and the one
  of the code keywords gives their count.
\<close>

datatype reason =
    Output_too_short
  | Contains_code_pattern nat
  | Too_many_code_keywords nat
  | Lacks_policy_content
  | Valid_policy_analysis

text \<open>The \<^verbatim>\<open>for\<close> loop over the patterns returns at the first one that matches.\<close>

fun first_code_pattern :: "regex list \<Rightarrow> nat \<Rightarrow> string \<Rightarrow> nat option" where
  "first_code_pattern [] i s = None"
| "first_code_pattern (r # rs) i s =
     (if re_search r s then Some i else first_code_pattern rs (Suc i) s)"

definition keyword_count :: "string list \<Rightarrow> string \<Rightarrow> nat" where
  "keyword_count kws s = length (filter (\<lambda>kw. contains kw s) kws)"

definition is_valid_policy_output :: "string \<Rightarrow> bool \<times> reason" where
  "is_valid_policy_output output =
     (if output = [] \<or> length output < 50 then (False, Output_too_short)
      else case first_code_pattern CODE_PATTERNS 0 output of
        Some i \<Rightarrow> (False, Contains_code_pattern i)
      | None \<Rightarrow>
          (let output_lower = lower output;
               code_keyword_count = keyword_count CODE_KEYWORDS output_lower
           in if code_keyword_count \<ge> 3 then (False, Too_many_code_keywords code_keyword_count)
              else let policy_keyword_count = keyword_count policy_keywords output_lower
                   in if policy_keyword_count < 2 then (False, Lacks_policy_content)
                      else (True, Valid_policy_analysis)))"

section \<open>Consensus heuristic\<close>

text \<open>
  Python computes the scores in binary64 floating point.  A float is modelled by the
  rational it denotes, and every arithmetic operation by the exact operation followed by
  \<^verbatim>\<open>fl64\<close>, rounding to the nearest number with a 53-bit significand, ties to even.
  The scores stay between 0 and 100 times the number of arguments, far from overflow and
  underflow, which the model leaves out.
\<close>

definition round_half_even :: "rat \<Rightarrow> int" where
  "round_half_even x =
     (let f = \<lfloor>x\<rfloor>; d = x - of_int f
      in if d < 1 / 2 then f else if 1 / 2 < d then f + 1 else if even f then f else f + 1)"

text \<open>The exponent \<open>e\<close> with \<open>2 ^ e \<le> x < 2 ^ (e + 1)\<close>, for positive \<open>x\<close>.\<close>

definition binary_exponent :: "rat \<Rightarrow> int" where
  "binary_exponent x =
     (let (p, q) = quotient_of x; k = bitlen p - bitlen q
      in if 2 powi k \<le> x then k else k - 1)"

definition fl64 :: "rat \<Rightarrow> rat" where
  "fl64 x =
     (if x = 0 then 0
      else let a = \<bar>x\<bar>; u = 2 powi (binary_exponent a - 52)
           in sgn x * of_int (round_half_even (a / u)) * u)"

text \<open>\<^verbatim>\<open>int(x)\<close> on a float truncates towards zero.\<close>

definition py_int :: "rat \<Rightarrow> int" where
  "py_int x = (if 0 \<le> x then \<lfloor>x\<rfloor> else \<lceil>x\<rceil>)"

definition agreement_keywords :: "string list" where
  "agreement_keywords = [''agree'', ''support'', ''concur'', ''consensus'', ''aligned'', ''correct'']"

definition disagreement_keywords :: "string list" where
  "disagreement_keywords = [''disagree'', ''oppose'', ''against'', ''however'', ''but'', ''contrary'']"

text \<open>
  The score of one argument, \<^verbatim>\<open>(agreement_count / (agreement_count + disagreement_count)) * 100\<close>;
  there is none when no keyword occurs, and then nothing is added to the total.
\<close>

definition argument_score :: "string \<Rightarrow> rat option" where
  "argument_score argument =
     (let arg_lower = lower argument;
          agreement_count = keyword_count agreement_keywords arg_lower;
          disagreement_count = keyword_count disagreement_keywords arg_lower
      in if agreement_count + disagreement_count > 0
         then Some (fl64 (fl64 (of_nat agreement_count / of_nat (agreement_count + disagreement_count)) * 100))
         else None)"

fun total_score :: "rat \<Rightarrow> string list \<Rightarrow> rat" where
  "total_score acc [] = acc"
| "total_score acc (argument # rest) =
     total_score (case argument_score argument of Some score \<Rightarrow> fl64 (acc + score) | None \<Rightarrow> acc) rest"

text \<open>
  \<^verbatim>\<open>round_arguments\<close> is a dictionary from agent id to argument, kept as an association
  list in insertion order.
\<close>

definition assess_consensus :: "(string \<times> string) list \<Rightarrow> int" where
  "assess_consensus round_arguments =
     (let consensus_level =
            (if round_arguments \<noteq> []
             then py_int (fl64 (total_score 0 (map snd round_arguments) / of_nat (length round_arguments)))
             else 0)
      in min (max consensus_level 0) 100)"

text \<open>What one argument adds to the total of its round.\<close>

definition per_argument_score :: "string \<Rightarrow> rat" where
  "per_argument_score argument = (case argument_score argument of Some score \<Rightarrow> score | None \<Rightarrow> 0)"

section \<open>Fallback and clean-up of the validator\<close>

text \<open>\<^verbatim>\<open>create_fallback_response\<close>: the template with role and topic filled in.\<close>

definition create_fallback_response :: "string \<Rightarrow> string \<Rightarrow> string" where
  "create_fallback_response agent_role policy_topic =
     [CHR 0x0A] @ ''**'' @ agent_role @ '' Analysis: '' @ policy_topic @ ''**'' @ [CHR 0x0A, CHR 0x0A]
     @ ''**Position:** CONDITIONAL SUPPORT'' @ [CHR 0x0A, CHR 0x0A]
     @ ''**Key Considerations:**'' @ [CHR 0x0A, CHR 0x0A]
     @ ''1. **Evidence Required:** Due to technical limitations in generating detailed analysis, I recommend consulting recent policy research reports and case studies on ''
     @ policy_topic @ ''.'' @ [CHR 0x0A, CHR 0x0A]
     @ ''2. **Economic Impact:** The economic implications of '' @ policy_topic
     @ '' require careful evaluation of fiscal impacts, market effects, and distributional consequences across different stakeholder groups.''
     @ [CHR 0x0A, CHR 0x0A]
     @ ''3. **Implementation Feasibility:** Successful implementation depends on regulatory framework design, enforcement mechanisms, and stakeholder engagement.''
     @ [CHR 0x0A, CHR 0x0A]
     @ ''4. **Risk Assessment:** Potential unintended consequences must be evaluated through pilot programs and phased rollout approaches.''
     @ [CHR 0x0A, CHR 0x0A]
     @ ''**Recommendation:** Conduct comprehensive cost-benefit analysis and stakeholder consultation before proceeding with policy implementation.''
     @ [CHR 0x0A, CHR 0x0A]
     @ ''*Note: This is a placeholder response. For detailed analysis, please consult subject matter experts and peer-reviewed policy research.*''
     @ [CHR 0x0A]"

text \<open>
  \<^verbatim>\<open>extract_policy_content\<close> applies five \<^verbatim>\<open>re.sub\<close> calls and \<^verbatim>\<open>strip\<close>.
  \<^verbatim>\<open>re.sub\<close> scans from the left; where the pattern matches it drops the match and goes
  on behind it.  \<open>strip_with m k s\<close> does this for a matcher \<open>m\<close> that gives the length
  of the match at the head of the text; \<open>k\<close> counts the characters of a match still to
  be dropped.
\<close>

fun find_index :: "string \<Rightarrow> string \<Rightarrow> nat option" where
  "find_index d [] = (if d = [] then Some 0 else None)"
| "find_index d (c # cs) =
     (if prefix d (c # cs) then Some 0 else map_option Suc (find_index d cs))"

fun strip_with :: "(string \<Rightarrow> nat option) \<Rightarrow> nat \<Rightarrow> string \<Rightarrow> string" where
  "strip_with m k [] = []"
| "strip_with m k (c # cs) =
     (if k > 0 then strip_with m (k - 1) cs
      else case m (c # cs) of
             Some n \<Rightarrow> strip_with m (n - 1) cs
           | None \<Rightarrow> c # strip_with m 0 cs)"

text \<open>Three backquotes, word characters, a newline, then lazily up to the next three backquotes.\<close>

definition code_block_at :: "string \<Rightarrow> nat option" where
  "code_block_at s =
     (if prefix ''```'' s
      then let w = length (takeWhile is_word (drop 3 s));
               r = drop (3 + w) s
           in (case r of
                 [] \<Rightarrow> None
               | c # body \<Rightarrow>
                   if c = CHR 0x0A
                   then map_option (\<lambda>i. 3 + w + 1 + i + 3) (find_index ''```'' body)
                   else None)
      else None)"

text \<open>\<^verbatim>\<open><[^>]+>\<close>: an opening angle, at least one character other than the closing angle, the closing angle.\<close>

definition tag_at :: "string \<Rightarrow> nat option" where
  "tag_at s =
     (case s of
        [] \<Rightarrow> None
      | c # cs \<Rightarrow>
          if c = CHR ''<''
          then let n = length (takeWhile (\<lambda>x. x \<noteq> CHR ''>'') cs)
               in if n > 0 \<and> n < length cs then Some (n + 2) else None
          else None)"

definition math_block_at :: "string \<Rightarrow> nat option" where
  "math_block_at s =
     (if prefix ''$$'' s then map_option (\<lambda>i. 2 + i + 2) (find_index ''$$'' (drop 2 s)) else None)"

text \<open>
  \<^verbatim>\<open>^---.*?---\<close> with \<^verbatim>\<open>re.MULTILINE\<close>: the match starts at the beginning of the text or
  behind a newline; \<open>bol\<close> says whether the head of the text is such a place.
\<close>

fun strip_frontmatter :: "bool \<Rightarrow> nat \<Rightarrow> string \<Rightarrow> string" where
  "strip_frontmatter bol k [] = []"
| "strip_frontmatter bol k (c # cs) =
     (if k > 0 then strip_frontmatter (c = CHR 0x0A) (k - 1) cs
      else case (if bol \<and> prefix ''---'' (c # cs)
                 then map_option (\<lambda>i. 3 + i + 3) (find_index ''---'' (drop 3 (c # cs)))
                 else None) of
             Some n \<Rightarrow> strip_frontmatter (c = CHR 0x0A) (n - 1) cs
           | None \<Rightarrow> c # strip_frontmatter (c = CHR 0x0A) 0 cs)"

text \<open>\<^verbatim>\<open>\n{3,}\<close> becomes two newlines: of a run of newlines at most two are kept.\<close>

fun collapse_newlines :: "nat \<Rightarrow> string \<Rightarrow> string" where
  "collapse_newlines n [] = []"
| "collapse_newlines n (c # cs) =
     (if c = CHR 0x0A
      then (if n < 2 then c # collapse_newlines (Suc n) cs else collapse_newlines n cs)
      else c # collapse_newlines 0 cs)"

definition strip :: "string \<Rightarrow> string" where
  "strip s = rev (dropWhile is_space (rev (dropWhile is_space s)))"

definition extract_policy_content :: "string \<Rightarrow> string" where
  "extract_policy_content output =
     strip (collapse_newlines 0 (strip_frontmatter True 0
       (strip_with math_block_at 0 (strip_with tag_at 0 (strip_with code_block_at 0 output)))))"

section \<open>Deliberation orchestrator\<close>

text \<open>
  The language model is outside the program.  Every invocation of an agent's task is a
  call of an oracle that either gives the text produced or raises an exception with a
  message (\<open>Inl\<close>).  A run invokes each agent at most once per phase and debate round,
  so an oracle indexed by the place of the call covers every behaviour of the model.
\<close>

datatype call =
    Problem_statement_call
  | Research_call string
  | Debate_call nat string
  | Voting_call string
  | Results_call

type_synonym llm = "call \<Rightarrow> string + string"

text \<open>The progress events, with the payload fields that carry data of the run.\<close>

datatype event =
    Phase_started nat
  | Phase_completed nat
  | Agent_created string
  | Agent_started string
  | Agent_completed string string
  | Debate_round_started nat
  | Consensus_check nat int
  | Consensus_reached nat
  | Vote_cast string string
  | Results_announced string
  | Report_generated
  | Deliberation_complete string
  | Deliberation_error string

record entry =
  round_num :: nat
  agent_id :: string
  agent_name :: string
  argument :: string

record debate_record =
  history :: "entry list"
  rounds :: nat
  consensus_reached :: bool

record report =
  policy_topic :: string
  report_problem_statement :: string
  research_count :: nat
  debate_count :: nat
  votes_count :: nat
  report_final_decision :: string
  report_final_announcement :: string

text \<open>\<^verbatim>\<open>self.results\<close>: a dictionary with one key per phase, absent until the phase has written it.\<close>

record results =
  problem_statement :: "string option"
  research :: "(string \<times> string) list option"
  debate :: "debate_record option"
  voting :: "(string \<times> string) list option"
  final_announcement :: "string option"
  final_decision_of :: "string option"
  final_report :: "report option"

text \<open>
  The deliberation system: whether an event emitter was given, the results, and the
  events handed to the emitter so far.
\<close>

record system =
  event_emitter :: bool
  sys_results :: results
  events :: "event list"

text \<open>
  \<^verbatim>\<open>emit_event\<close> hands the event to the emitter if there is one, and catches what the
  emitter raises; without an emitter it only logs a warning.
\<close>

definition emit_event :: "event \<Rightarrow> system \<Rightarrow> system" where
  "emit_event e sys = (if event_emitter sys then sys\<lparr>events := events sys @ [e]\<rparr> else sys)"

text \<open>The result of a step that may raise: the message of the exception, or the value.\<close>

datatype 'a outcome = Raised string | Returned 'a

text \<open>
  \<^verbatim>\<open>agent_id.replace('_', ' ').title()\<close>; the agent ids are ASCII identifiers, on
  which the case maps of the model are exact.
\<close>

fun title_from :: "bool \<Rightarrow> string \<Rightarrow> string" where
  "title_from prev [] = []"
| "title_from prev (c # cs) =
     (if upper_chr c \<noteq> [c] then (if prev then [c] else upper_chr c) @ title_from True cs
      else if lower_chr c \<noteq> c then (if prev then lower_chr c else c) # title_from True cs
      else c # title_from False cs)"

definition agent_title :: "string \<Rightarrow> string" where
  "agent_title a = title_from False (map (\<lambda>c. if c = CHR ''_'' then CHR '' '' else c) a)"

definition orchestration_roles :: "string list" where
  "orchestration_roles = [''problem_statement'', ''turn_management'', ''voting_announcement'']"

definition domain_experts :: "string list \<Rightarrow> string list" where
  "domain_experts agents = filter (\<lambda>a. a \<notin> set orchestration_roles) agents"

text \<open>The validation step of the problem statement and research phases.\<close>

definition validated_output :: "string \<Rightarrow> string \<Rightarrow> string \<Rightarrow> string" where
  "validated_output role topic result_str =
     (if \<not> fst (is_valid_policy_output result_str)
      then create_fallback_response role topic
      else extract_policy_content result_str)"

text \<open>
  Phase 2.  \<^verbatim>\<open>agents['problem_statement']\<close> raises a \<^verbatim>\<open>KeyError\<close> when the agent is
  missing; its message is the key in quotes.
\<close>

definition phase_problem_statement ::
  "llm \<Rightarrow> string list \<Rightarrow> string \<Rightarrow> system \<Rightarrow> system \<times> unit outcome" where
  "phase_problem_statement llm agents topic sys =
     (let s1 = emit_event (Phase_started 2) sys
      in if ''problem_statement'' \<notin> set agents
         then (s1, Raised ([CHR 0x27] @ ''problem_statement'' @ [CHR 0x27]))
         else let s2 = emit_event (Agent_started ''problem_statement'') s1
              in case llm Problem_statement_call of
                   Inl e \<Rightarrow> (s2, Raised e)
                 | Inr result \<Rightarrow>
                     let result_str = validated_output ''Problem Statement Expert'' topic result;
                         s3 = s2\<lparr>sys_results := (sys_results s2)\<lparr>problem_statement := Some result_str\<rparr>\<rparr>;
                         s4 = emit_event (Agent_completed ''problem_statement'' (take 500 result)) s3
                     in (emit_event (Phase_completed 2) s4, Returned ()))"

text \<open>Phase 3.  The research groups, in the order of the dictionary.\<close>

definition research_groups :: "string list" where
  "research_groups =
     [''economic'', ''economic_macro'', ''economic_micro'', ''policy_impact'', ''trade_investment'',
      ''social'', ''healthcare_welfare'', ''education_welfare'', ''housing_welfare'',
      ''geospatial'', ''geographic_poverty'', ''demographic_policy'', ''resource_access'',
      ''income'', ''inequality_causes'', ''income_redistribution'', ''inequality_impact'',
      ''resource'', ''resource_optimization'', ''realtime_allocation'', ''system_efficiency'',
      ''policy_monitoring'', ''adaptive_policy'',
      ''legal'']"

fun research_agents ::
  "llm \<Rightarrow> string list \<Rightarrow> string \<Rightarrow> string list \<Rightarrow> (string \<times> string) list \<Rightarrow> nat \<Rightarrow> system
   \<Rightarrow> system \<times> ((string \<times> string) list \<times> nat) outcome" where
  "research_agents llm agents topic [] research_results completed_count sys =
     (sys, Returned (research_results, completed_count))"
| "research_agents llm agents topic (a # rest) research_results completed_count sys =
     (if a \<notin> set agents then research_agents llm agents topic rest research_results completed_count sys
      else let s1 = emit_event (Agent_started a) sys
           in case llm (Research_call a) of
                Inl e \<Rightarrow> (s1, Raised e)
              | Inr result \<Rightarrow>
                  let result_str = validated_output (agent_title a) topic result
                  in research_agents llm agents topic rest
                       (AList.update a result_str research_results) (completed_count + 1)
                       (emit_event (Agent_completed a (take 500 result)) s1))"

definition phase_research :: "llm \<Rightarrow> string list \<Rightarrow> string \<Rightarrow> system \<Rightarrow> system \<times> unit outcome" where
  "phase_research llm agents topic sys =
     (case research_agents llm agents topic research_groups [] 0 (emit_event (Phase_started 3) sys) of
        (s1, Raised e) \<Rightarrow> (s1, Raised e)
      | (s1, Returned (research_results, completed_count)) \<Rightarrow>
          (emit_event (Phase_completed 3)
             (s1\<lparr>sys_results := (sys_results s1)\<lparr>research := Some research_results\<rparr>\<rparr>),
           Returned ()))"

text \<open>
  Phase 4.  One round: every domain expert is invoked in turn; its argument is stored in
  the round's dictionary and appended to the history.
\<close>

definition max_rounds :: nat where
  "max_rounds = 3"

fun debate_agents ::
  "llm \<Rightarrow> nat \<Rightarrow> string list \<Rightarrow> entry list \<Rightarrow> (string \<times> string) list \<Rightarrow> system
   \<Rightarrow> system \<times> (entry list \<times> (string \<times> string) list) outcome" where
  "debate_agents llm r [] debate_history round_arguments sys =
     (sys, Returned (debate_history, round_arguments))"
| "debate_agents llm r (a # rest) debate_history round_arguments sys =
     (let s1 = emit_event (Agent_started a) sys
      in case llm (Debate_call r a) of
           Inl e \<Rightarrow> (s1, Raised e)
         | Inr arg \<Rightarrow>
             debate_agents llm r rest
               (debate_history @ [\<lparr>round_num = r, agent_id = a, agent_name = agent_title a, argument = arg\<rparr>])
               (AList.update a arg round_arguments)
               (emit_event (Agent_completed a (take 500 arg)) s1))"

text \<open>
  The loop over the rounds.  \<open>rn\<close> is the loop variable \<^verbatim>\<open>round_num\<close>, which keeps its
  last value behind the loop; the \<^verbatim>\<open>break\<close> leaves the loop with the consensus flag set.
\<close>

fun debate_loop ::
  "llm \<Rightarrow> string list \<Rightarrow> nat list \<Rightarrow> entry list \<Rightarrow> nat \<Rightarrow> system \<Rightarrow> system \<times> debate_record outcome" where
  "debate_loop llm experts [] debate_history rn sys =
     (sys, Returned \<lparr>history = debate_history, rounds = rn, consensus_reached = False\<rparr>)"
| "debate_loop llm experts (r # rs) debate_history rn sys =
     (case debate_agents llm r experts debate_history [] (emit_event (Debate_round_started r) sys) of
        (s1, Raised e) \<Rightarrow> (s1, Raised e)
      | (s1, Returned (debate_history1, round_arguments)) \<Rightarrow>
          if r < max_rounds
          then let consensus_level = assess_consensus round_arguments;
                   s2 = emit_event (Consensus_check r consensus_level) s1
               in if consensus_level \<ge> 70
                  then (emit_event (Consensus_reached r) s2,
                        Returned \<lparr>history = debate_history1, rounds = r, consensus_reached = True\<rparr>)
                  else debate_loop llm experts rs debate_history1 r s2
          else debate_loop llm experts rs debate_history1 r s1)"

definition phase_debate :: "llm \<Rightarrow> string list \<Rightarrow> system \<Rightarrow> system \<times> unit outcome" where
  "phase_debate llm agents sys =
     (case debate_loop llm (domain_experts agents) [1..<max_rounds + 1] [] 0
             (emit_event (Phase_started 4) sys) of
        (s1, Raised e) \<Rightarrow> (s1, Raised e)
      | (s1, Returned d) \<Rightarrow>
          (emit_event (Phase_completed 4) (s1\<lparr>sys_results := (sys_results s1)\<lparr>debate := Some d\<rparr>\<rparr>),
           Returned ()))"

text \<open>Phase 5.  The votes are recorded as the agents gave them.\<close>

fun voting_agents ::
  "llm \<Rightarrow> string list \<Rightarrow> (string \<times> string) list \<Rightarrow> system \<Rightarrow> system \<times> (string \<times> string) list outcome" where
  "voting_agents llm [] voting_results sys = (sys, Returned voting_results)"
| "voting_agents llm (a # rest) voting_results sys =
     (let s1 = emit_event (Agent_started a) sys
      in case llm (Voting_call a) of
           Inl e \<Rightarrow> (s1, Raised e)
         | Inr result \<Rightarrow>
             voting_agents llm rest (AList.update a result voting_results)
               (emit_event (Agent_completed a (take 500 result))
                  (emit_event (Vote_cast a (take 200 result)) s1)))"

definition phase_voting :: "llm \<Rightarrow> string list \<Rightarrow> system \<Rightarrow> system \<times> unit outcome" where
  "phase_voting llm agents sys =
     (case voting_agents llm (domain_experts agents) [] (emit_event (Phase_started 5) sys) of
        (s1, Raised e) \<Rightarrow> (s1, Raised e)
      | (s1, Returned voting_results) \<Rightarrow>
          (emit_event (Phase_completed 5) (s1\<lparr>sys_results := (sys_results s1)\<lparr>voting := Some voting_results\<rparr>\<rparr>),
           Returned ()))"

text \<open>Phase 6.\<close>

definition phase_results :: "llm \<Rightarrow> string list \<Rightarrow> system \<Rightarrow> system \<times> unit outcome" where
  "phase_results llm agents sys =
     (let s1 = emit_event (Phase_started 6) sys
      in if ''voting_announcement'' \<notin> set agents
         then (s1, Raised ([CHR 0x27] @ ''voting_announcement'' @ [CHR 0x27]))
         else let s2 = emit_event (Agent_started ''voting_announcement'') s1
              in case llm Results_call of
                   Inl e \<Rightarrow> (s2, Raised e)
                 | Inr result \<Rightarrow>
                     let decision = final_decision result;
                         s3 = s2\<lparr>sys_results := (sys_results s2)
                                 \<lparr>final_announcement := Some result, final_decision_of := Some decision\<rparr>\<rparr>;
                         s4 = emit_event (Results_announced decision) s3
                     in (emit_event (Phase_completed 6) s4, Returned ()))"

text \<open>
  Phase 7.  The counts are the lengths of the dictionaries; the debate record has three
  keys.  The time stamp of the report is left out.
\<close>

definition phase_final_report :: "string \<Rightarrow> system \<Rightarrow> system" where
  "phase_final_report topic sys =
     (let s1 = emit_event (Phase_started 7) sys;
          res = sys_results s1;
          rep = \<lparr>policy_topic = topic,
                 report_problem_statement = (case problem_statement res of Some t \<Rightarrow> t | None \<Rightarrow> []),
                 research_count = (case research res of Some r \<Rightarrow> length r | None \<Rightarrow> 0),
                 debate_count = (case debate res of Some d \<Rightarrow> 3 | None \<Rightarrow> 0),
                 votes_count = (case voting res of Some v \<Rightarrow> length v | None \<Rightarrow> 0),
                 report_final_decision = (case final_decision_of res of Some d \<Rightarrow> d | None \<Rightarrow> ''Unknown''),
                 report_final_announcement = (case final_announcement res of Some t \<Rightarrow> t | None \<Rightarrow> [])\<rparr>;
          s2 = s1\<lparr>sys_results := res\<lparr>final_report := Some rep\<rparr>\<rparr>;
          s3 = emit_event Report_generated s2
      in emit_event (Phase_completed 7) s3)"

text \<open>Phase 1.  Every catalogue entry with a constructor in the method map becomes an agent.\<close>

definition agent_definition_ids :: "string list" where
  "agent_definition_ids =
     [''problem_statement'', ''turn_management'', ''voting_announcement'',
      ''economic'', ''social'', ''geospatial'', ''income'', ''resource'', ''legal'',
      ''economic_macro'', ''economic_micro'', ''policy_impact'', ''trade_investment'',
      ''healthcare_welfare'', ''education_welfare'', ''housing_welfare'',
      ''geographic_poverty'', ''demographic_policy'', ''resource_access'',
      ''inequality_causes'', ''income_redistribution'', ''inequality_impact'',
      ''resource_optimization'', ''realtime_allocation'', ''system_efficiency'',
      ''policy_monitoring'', ''adaptive_policy'']"

definition method_map_keys :: "string list" where
  "method_map_keys =
     [''problem_statement'', ''turn_management'', ''voting_announcement'',
      ''economic'', ''social'', ''geospatial'', ''income'', ''resource'', ''legal'',
      ''economic_macro'', ''economic_micro'', ''policy_impact'', ''trade_investment'',
      ''healthcare_welfare'', ''education_welfare'', ''housing_welfare'',
      ''geographic_poverty'', ''demographic_policy'', ''resource_access'',
      ''inequality_causes'', ''income_redistribution'', ''inequality_impact'',
      ''resource_optimization'', ''realtime_allocation'', ''system_efficiency'',
      ''policy_monitoring'', ''adaptive_policy'']"

fun initialize_agents :: "string list \<Rightarrow> string list \<Rightarrow> system \<Rightarrow> system \<times> string list" where
  "initialize_agents [] agents sys = (sys, agents)"
| "initialize_agents (a # rest) agents sys =
     initialize_agents rest (if a \<in> set method_map_keys then agents @ [a] else agents)
       (emit_event (Agent_created a) sys)"

text \<open>
  \<^verbatim>\<open>run_deliberation\<close>: the phases in order inside one \<^verbatim>\<open>try\<close>; the handler emits the
  error event and returns the failure.  The duration is left out.
\<close>

datatype run_result = Success results | Failure string

definition run_phases :: "llm \<Rightarrow> string \<Rightarrow> system \<Rightarrow> system \<times> unit outcome" where
  "run_phases llm topic sys =
     (let (s1, agents) = initialize_agents agent_definition_ids [] (emit_event (Phase_started 1) sys);
          s2 = emit_event (Phase_completed 1) s1
      in case phase_problem_statement llm agents topic s2 of
           (s3, Raised e) \<Rightarrow> (s3, Raised e)
         | (s3, Returned u) \<Rightarrow>
        (case phase_research llm agents topic s3 of
           (s4, Raised e) \<Rightarrow> (s4, Raised e)
         | (s4, Returned u) \<Rightarrow>
        (case phase_debate llm agents s4 of
           (s5, Raised e) \<Rightarrow> (s5, Raised e)
         | (s5, Returned u) \<Rightarrow>
        (case phase_voting llm agents s5 of
           (s6, Raised e) \<Rightarrow> (s6, Raised e)
         | (s6, Returned u) \<Rightarrow>
        (case phase_results llm agents s6 of
           (s7, Raised e) \<Rightarrow> (s7, Raised e)
         | (s7, Returned u) \<Rightarrow>
             (let s8 = phase_final_report topic s7
              in (emit_event (Deliberation_complete
                    (case final_decision_of (sys_results s8) of Some d \<Rightarrow> d | None \<Rightarrow> ''Unknown'')) s8,
                  Returned ())))))))"

definition run_deliberation :: "llm \<Rightarrow> string \<Rightarrow> system \<Rightarrow> system \<times> run_result" where
  "run_deliberation llm topic sys =
     (case run_phases llm topic sys of
        (s1, Returned u) \<Rightarrow> (s1, Success (sys_results s1))
      | (s1, Raised e) \<Rightarrow> (emit_event (Deliberation_error e) s1, Failure e))"

text \<open>The policy service keeps the session and sets its status from the result of the run.\<close>

datatype session_results = No_results | Error_result string | Run_results results

record session =
  status :: string
  session_results :: session_results

definition service_run_deliberation :: "llm \<Rightarrow> string \<Rightarrow> system \<times> session \<Rightarrow> system \<times> session" where
  "service_run_deliberation llm topic st =
     (case run_deliberation llm topic (fst st) of
        (s1, Success res) \<Rightarrow> (s1, (snd st)\<lparr>status := ''completed'', session_results := Run_results res\<rparr>)
      | (s1, Failure e) \<Rightarrow> (s1, (snd st)\<lparr>status := ''error'', session_results := Error_result e\<rparr>))"

text \<open>\<^verbatim>\<open>__init__\<close>: no results, no events yet.\<close>

definition new_system :: "bool \<Rightarrow> system" where
  "new_system emitter =
     \<lparr>event_emitter = emitter,
      sys_results = \<lparr>problem_statement = None, research = None, debate = None, voting = None,
                     final_announcement = None, final_decision_of = None, final_report = None\<rparr>,
      events = []\<rparr>"

section \<open>Reading the debate record\<close>

text \<open>
  The entry that round \<open>r\<close> appends for agent \<open>a\<close>, the entries of a whole round, and the
  dictionary of arguments that a list of entries fills.  \<open>round_arguments_of\<close> reads the
  arguments of round \<open>r\<close> back from a recorded history.
\<close>

definition debate_entry :: "llm \<Rightarrow> nat \<Rightarrow> string \<Rightarrow> entry" where
  "debate_entry llm r a =
     \<lparr>round_num = r, agent_id = a, agent_name = agent_title a,
      argument = (case llm (Debate_call r a) of Inr x \<Rightarrow> x | Inl e \<Rightarrow> [])\<rparr>"

definition round_entries :: "llm \<Rightarrow> string list \<Rightarrow> nat \<Rightarrow> entry list" where
  "round_entries llm experts r = map (debate_entry llm r) experts"

definition dict_of :: "entry list \<Rightarrow> (string \<times> string) list" where
  "dict_of es = foldl (\<lambda>m e. AList.update (agent_id e) (argument e) m) [] es"

definition round_arguments_of :: "entry list \<Rightarrow> nat \<Rightarrow> (string \<times> string) list" where
  "round_arguments_of hist r = dict_of (filter (\<lambda>e. round_num e = r) hist)"

definition round_score :: "llm \<Rightarrow> string list \<Rightarrow> nat \<Rightarrow> int" where
  "round_score llm ex r = assess_consensus (dict_of (round_entries llm ex r))"

section \<open>Facts about text search\<close>

lemma contains_sublist: "contains kw s \<longleftrightarrow> sublist kw s"
  by (induction s) (auto simp: sublist_Cons_right)

lemma contains_longer: "contains (kw @ ext) s \<Longrightarrow> contains kw s"
  unfolding contains_sublist by (meson sublist_append_leftI sublist_order.order_trans sublist_appendI prefix_imp_sublist prefixI)

section \<open>The decision label\<close>

text \<open>
  C5, as stated, promises REJECTED for every output that contains REJECTED.  The chain
  tests the approval words first, so an output with both is labelled APPROVED.
\<close>

theorem final_decision_rejected_counterexample:
  "contains ''REJECTED'' (upper ''Motion to approve: REJECTED'')
   \<and> final_decision ''Motion to approve: REJECTED'' = ''APPROVED''"
  by code_simp

text \<open>
  C5 (amended): the label is APPROVED when the upper-cased output contains APPROVE (which
  covers APPROVED); otherwise REJECTED when it contains REJECT (which covers REJECTED);
  otherwise CONDITIONAL.  In particular an output that contains REJECTED and no APPROVE
  is labelled REJECTED.
\<close>

theorem final_decision_scan:
  "final_decision out =
     (if contains ''APPROVE'' (upper out) then ''APPROVED''
      else if contains ''REJECT'' (upper out) then ''REJECTED''
      else ''CONDITIONAL'')
   \<and> (contains ''REJECTED'' (upper out) \<and> \<not> contains ''APPROVE'' (upper out)
        \<longrightarrow> final_decision out = ''REJECTED'')"
proof -
  have a: "contains ''APPROVED'' s \<Longrightarrow> contains ''APPROVE'' s" for s
    using contains_longer [of "''APPROVE''" "''D''" s] by simp
  have r: "contains ''REJECTED'' s \<Longrightarrow> contains ''REJECT'' s" for s
    using contains_longer [of "''REJECT''" "''ED''" s] by simp
  show ?thesis
    unfolding final_decision_def Let_def using a r by auto
qed

theorem final_decision_scan_witness:
  "contains ''REJECTED'' (upper ''The policy is rejected.'')
   \<and> \<not> contains ''APPROVE'' (upper ''The policy is rejected.'')
   \<and> final_decision ''The policy is rejected.'' = ''REJECTED''"
proof -
  have h: "contains ''REJECTED'' (upper ''The policy is rejected.'')
           \<and> \<not> contains ''APPROVE'' (upper ''The policy is rejected.'')"
    by code_simp
  with final_decision_scan [of "''The policy is rejected.''"] show ?thesis by blast
qed

section \<open>Consensus scores\<close>

lemma fl64_1: "fl64 1 = 1"
  by code_simp

lemma fl64_100: "fl64 100 = 100"
  by code_simp

text \<open>
  C2: an argument with agreement keywords only scores 100, one with disagreement keywords
  only scores 0, and one with neither adds 0; keywords are found by substring search in
  the lower-cased text.  A round of that single argument has the same consensus score.
\<close>

theorem per_argument_score_cases:
  "(keyword_count agreement_keywords (lower t) > 0 \<and> keyword_count disagreement_keywords (lower t) = 0
      \<longrightarrow> per_argument_score t = 100 \<and> assess_consensus [(a, t)] = 100)
   \<and> (keyword_count agreement_keywords (lower t) = 0 \<and> keyword_count disagreement_keywords (lower t) > 0
      \<longrightarrow> per_argument_score t = 0 \<and> assess_consensus [(a, t)] = 0)
   \<and> (keyword_count agreement_keywords (lower t) = 0 \<and> keyword_count disagreement_keywords (lower t) = 0
      \<longrightarrow> per_argument_score t = 0 \<and> assess_consensus [(a, t)] = 0)"
proof -
  have z: "fl64 0 = 0" by (simp add: fl64_def)
  show ?thesis
    by (simp add: per_argument_score_def argument_score_def assess_consensus_def Let_def
        fl64_1 fl64_100 z py_int_def)
qed

theorem per_argument_score_cases_witness:
  "keyword_count agreement_keywords (lower ''I agree'') > 0
   \<and> keyword_count disagreement_keywords (lower ''I agree'') = 0
   \<and> per_argument_score ''I agree'' = 100 \<and> assess_consensus [(''economic'', ''I agree'')] = 100
   \<and> keyword_count agreement_keywords (lower ''However, no'') = 0
   \<and> keyword_count disagreement_keywords (lower ''However, no'') > 0
   \<and> per_argument_score ''However, no'' = 0 \<and> assess_consensus [(''economic'', ''However, no'')] = 0
   \<and> keyword_count agreement_keywords (lower ''Noted'') = 0
   \<and> keyword_count disagreement_keywords (lower ''Noted'') = 0
   \<and> per_argument_score ''Noted'' = 0 \<and> assess_consensus [(''economic'', ''Noted'')] = 0"
proof -
  have h1: "keyword_count agreement_keywords (lower ''I agree'') > 0
            \<and> keyword_count disagreement_keywords (lower ''I agree'') = 0"
    by code_simp
  have h2: "keyword_count agreement_keywords (lower ''However, no'') = 0
            \<and> keyword_count disagreement_keywords (lower ''However, no'') > 0"
    by code_simp
  have h3: "keyword_count agreement_keywords (lower ''Noted'') = 0
            \<and> keyword_count disagreement_keywords (lower ''Noted'') = 0"
    by code_simp
  show ?thesis
    using h1 h2 h3
      per_argument_score_cases [of "''I agree''" "''economic''"]
      per_argument_score_cases [of "''However, no''" "''economic''"]
      per_argument_score_cases [of "''Noted''" "''economic''"]
    by blast
qed

text \<open>
  C8: the consensus score of a non-empty round is an integer between 0 and 100.
\<close>

theorem assess_consensus_range:
  "round_arguments \<noteq> [] \<Longrightarrow>
     0 \<le> assess_consensus round_arguments \<and> assess_consensus round_arguments \<le> 100"
  by (simp add: assess_consensus_def Let_def)

theorem assess_consensus_range_witness:
  "[(''economic'', ''I agree''), (''social'', ''I agree, but it is costly'')] \<noteq> []
   \<and> 0 \<le> assess_consensus [(''economic'', ''I agree''), (''social'', ''I agree, but it is costly'')]
   \<and> assess_consensus [(''economic'', ''I agree''), (''social'', ''I agree, but it is costly'')] \<le> 100"
  using assess_consensus_range
    [of "[(''economic'', ''I agree''), (''social'', ''I agree, but it is costly'')]"]
  by simp

section \<open>Facts about the debate loop\<close>

lemma debate_agents_returned:
  "debate_agents llm r ex h ra s = (s', Returned (h', ra')) \<Longrightarrow>
     h' = h @ round_entries llm ex r
     \<and> ra' = foldl (\<lambda>m e. AList.update (agent_id e) (argument e) m) ra (round_entries llm ex r)"
proof (induction ex arbitrary: h ra s)
  case Nil
  then show ?case by (simp add: round_entries_def)
next
  case (Cons a ex)
  from Cons.prems obtain x where x: "llm (Debate_call r a) = Inr x"
    by (auto simp: Let_def split: sum.splits)
  with Cons.prems have
    "debate_agents llm r ex (h @ [\<lparr>round_num = r, agent_id = a, agent_name = agent_title a, argument = x\<rparr>])
       (AList.update a x ra) (emit_event (Agent_completed a (take 500 x)) (emit_event (Agent_started a) s))
     = (s', Returned (h', ra'))"
    by (simp add: Let_def)
  from Cons.IH [OF this] x show ?case
    by (simp add: round_entries_def debate_entry_def)
qed

lemma debate_loop_step:
  assumes "debate_agents llm r ex h [] (emit_event (Debate_round_started r) s) = (s1, Returned (h1, ra))"
  shows "debate_loop llm ex (r # rs) h rn s =
     (if r < max_rounds \<and> 70 \<le> assess_consensus ra
      then (emit_event (Consensus_reached r) (emit_event (Consensus_check r (assess_consensus ra)) s1),
            Returned \<lparr>history = h1, rounds = r, consensus_reached = True\<rparr>)
      else debate_loop llm ex rs h1 r
             (if r < max_rounds then emit_event (Consensus_check r (assess_consensus ra)) s1 else s1))"
  using assms by (simp add: Let_def)

lemma debate_loop_raised:
  assumes "debate_agents llm r ex h [] (emit_event (Debate_round_started r) s) = (s1, Raised e)"
  shows "debate_loop llm ex (r # rs) h rn s = (s1, Raised e)"
  using assms by simp

lemma debate_loop_returned:
  "debate_loop llm ex rs h rn s = (s', Returned d) \<Longrightarrow>
     \<exists>ks. prefix ks rs
       \<and> history d = h @ concat (map (round_entries llm ex) ks)
       \<and> rounds d = last (rn # ks)
       \<and> (consensus_reached d \<longleftrightarrow> ks \<noteq> [] \<and> last ks < max_rounds \<and> 70 \<le> round_score llm ex (last ks))
       \<and> (\<forall>r \<in> set (butlast ks). \<not> (r < max_rounds \<and> 70 \<le> round_score llm ex r))
       \<and> (\<not> consensus_reached d \<longrightarrow> ks = rs)"
proof (induction rs arbitrary: h rn s)
  case Nil
  then show ?case by auto
next
  case (Cons r rs)
  obtain s1 o1 where ag0: "debate_agents llm r ex h [] (emit_event (Debate_round_started r) s) = (s1, o1)"
    by (cases "debate_agents llm r ex h [] (emit_event (Debate_round_started r) s)")
  have "\<exists>h1 ra. o1 = Returned (h1, ra)"
  proof (cases o1)
    case (Raised e)
    with debate_loop_raised [of llm r ex h s s1 e rs rn] ag0 Cons.prems show ?thesis by simp
  next
    case (Returned v)
    then show ?thesis by (cases v) simp
  qed
  then obtain h1 ra where
    ag: "debate_agents llm r ex h [] (emit_event (Debate_round_started r) s) = (s1, Returned (h1, ra))"
    using ag0 by blast
  note step = debate_loop_step [OF ag, of rs rn]
  from debate_agents_returned [OF ag] have
    h1: "h1 = h @ round_entries llm ex r" and ra: "ra = dict_of (round_entries llm ex r)"
    by (simp_all add: dict_of_def)
  show ?case
  proof (cases "r < max_rounds \<and> 70 \<le> assess_consensus ra")
    case True
    with Cons.prems step have d: "d = \<lparr>history = h1, rounds = r, consensus_reached = True\<rparr>"
      by simp
    have "prefix [r] (r # rs)" by simp
    moreover have "history d = h @ concat (map (round_entries llm ex) [r])" using d h1 by simp
    moreover have "rounds d = last (rn # [r])" using d by simp
    moreover have "consensus_reached d \<longleftrightarrow> [r] \<noteq> [] \<and> last [r] < max_rounds \<and> 70 \<le> round_score llm ex (last [r])"
      using d True ra by (simp add: round_score_def)
    moreover have "\<forall>r' \<in> set (butlast [r]). \<not> (r' < max_rounds \<and> 70 \<le> round_score llm ex r')" by simp
    moreover have "\<not> consensus_reached d \<longrightarrow> [r] = r # rs" using d by simp
    ultimately show ?thesis by blast
  next
    case False
    with Cons.prems step obtain s2 where
      rec: "debate_loop llm ex rs h1 r s2 = (s', Returned d)"
      by simp
    from Cons.IH [OF rec] obtain ks where ks:
      "prefix ks rs" "history d = h1 @ concat (map (round_entries llm ex) ks)"
      "rounds d = last (r # ks)"
      "consensus_reached d \<longleftrightarrow> ks \<noteq> [] \<and> last ks < max_rounds \<and> 70 \<le> round_score llm ex (last ks)"
      "\<forall>r \<in> set (butlast ks). \<not> (r < max_rounds \<and> 70 \<le> round_score llm ex r)"
      "\<not> consensus_reached d \<longrightarrow> ks = rs"
      by blast
    have nr: "\<not> (r < max_rounds \<and> 70 \<le> round_score llm ex r)"
      using False ra by (simp add: round_score_def)
    have "prefix (r # ks) (r # rs)" using ks(1) by simp
    moreover have "history d = h @ concat (map (round_entries llm ex) (r # ks))" using ks(2) h1 by simp
    moreover have "rounds d = last (rn # r # ks)" using ks(3) by simp
    moreover have "consensus_reached d \<longleftrightarrow> r # ks \<noteq> [] \<and> last (r # ks) < max_rounds \<and> 70 \<le> round_score llm ex (last (r # ks))"
      using ks(4) nr by (cases "ks = []") simp_all
    moreover have "\<forall>r' \<in> set (butlast (r # ks)). \<not> (r' < max_rounds \<and> 70 \<le> round_score llm ex r')"
      using ks(5) nr by (cases "ks = []") simp_all
    moreover have "\<not> consensus_reached d \<longrightarrow> r # ks = r # rs" using ks(6) by simp
    ultimately show ?thesis by blast
  qed
qed

lemma filter_round_entries:
  "filter (\<lambda>e. round_num e = r) (round_entries llm ex k) = (if k = r then round_entries llm ex k else [])"
  by (induction ex) (simp_all add: round_entries_def debate_entry_def)

lemma prefix_of_three:
  "prefix ks [a, b, c] \<Longrightarrow> ks = [] \<or> ks = [a] \<or> ks = [a, b] \<or> ks = [a, b, c]"
  by (auto simp: prefix_Cons)

lemma phase_debate_returned:
  assumes "phase_debate llm agents sys = (sys', Returned u)"
  shows "\<exists>s1 d. debate_loop llm (domain_experts agents) [1, 2, 3] [] 0 (emit_event (Phase_started 4) sys)
                  = (s1, Returned d)
               \<and> debate (sys_results sys') = Some d"
proof -
  have rs: "[1..<max_rounds + 1] = [1, 2, 3]"
    by (simp add: max_rounds_def upt_rec)
  obtain s1 o1 where l: "debate_loop llm (domain_experts agents) [1, 2, 3] [] 0
      (emit_event (Phase_started 4) sys) = (s1, o1)"
    by (cases "debate_loop llm (domain_experts agents) [1, 2, 3] [] 0 (emit_event (Phase_started 4) sys)")
  show ?thesis
  proof (cases o1)
    case (Raised e)
    with assms l rs show ?thesis by (simp add: phase_debate_def)
  next
    case (Returned d)
    with assms l rs have "sys' = emit_event (Phase_completed 4)
        (s1\<lparr>sys_results := (sys_results s1)\<lparr>debate := Some d\<rparr>\<rparr>)"
      by (simp add: phase_debate_def)
    then have "debate (sys_results sys') = Some d"
      by (simp add: emit_event_def)
    with l Returned show ?thesis by simp
  qed
qed

lemma debate_record_shape:
  assumes "debate_loop llm ex [1, 2, 3] [] 0 s = (s1, Returned d)"
  shows "(rounds d = 1 \<and> consensus_reached d \<and> history d = round_entries llm ex 1
            \<and> 70 \<le> round_score llm ex 1)
       \<or> (rounds d = 2 \<and> consensus_reached d
            \<and> history d = round_entries llm ex 1 @ round_entries llm ex 2
            \<and> \<not> 70 \<le> round_score llm ex 1 \<and> 70 \<le> round_score llm ex 2)
       \<or> (rounds d = 3 \<and> \<not> consensus_reached d
            \<and> history d = round_entries llm ex 1 @ round_entries llm ex 2 @ round_entries llm ex 3
            \<and> \<not> 70 \<le> round_score llm ex 1 \<and> \<not> 70 \<le> round_score llm ex 2)"
proof -
  from debate_loop_returned [OF assms] obtain ks where ks:
    "prefix ks [1, 2, 3]" "history d = [] @ concat (map (round_entries llm ex) ks)"
    "rounds d = last (0 # ks)"
    "consensus_reached d \<longleftrightarrow> ks \<noteq> [] \<and> last ks < max_rounds \<and> 70 \<le> round_score llm ex (last ks)"
    "\<forall>r \<in> set (butlast ks). \<not> (r < max_rounds \<and> 70 \<le> round_score llm ex r)"
    "\<not> consensus_reached d \<longrightarrow> ks = [1, 2, 3]"
    by blast
  from prefix_of_three [OF ks(1)] consider "ks = []" | "ks = [1]" | "ks = [1, 2]" | "ks = [1, 2, 3]"
    by blast
  then show ?thesis
  proof cases
    case 1
    with ks(4) ks(6) show ?thesis by simp
  next
    case 2
    with ks show ?thesis by (simp add: max_rounds_def)
  next
    case 3
    with ks show ?thesis by (simp add: max_rounds_def)
  next
    case 4
    with ks show ?thesis by (simp add: max_rounds_def)
  qed
qed

lemma debate_agents_calls:
  "debate_agents llm r ex h ra s = (s', Returned v) \<Longrightarrow>
     \<forall>a \<in> set ex. llm (Debate_call r a) = Inr (argument (debate_entry llm r a))"
proof (induction ex arbitrary: h ra s)
  case Nil
  then show ?case by simp
next
  case (Cons a ex)
  show ?case
  proof (cases "llm (Debate_call r a)")
    case (Inl x)
    with Cons.prems show ?thesis by (simp add: Let_def)
  next
    case (Inr x)
    with Cons.prems Cons.IH show ?thesis by (simp add: Let_def debate_entry_def)
  qed
qed

lemma debate_agents_total:
  "\<forall>a \<in> set ex. \<not> isl (llm (Debate_call r a)) \<Longrightarrow>
     \<exists>s' h' ra'. debate_agents llm r ex h ra s = (s', Returned (h', ra'))"
proof (induction ex arbitrary: h ra s)
  case Nil
  then show ?case by simp
next
  case (Cons a ex)
  from Cons.prems obtain x where x: "llm (Debate_call r a) = Inr x"
    by (cases "llm (Debate_call r a)") simp_all
  from Cons.prems have "\<forall>a \<in> set ex. \<not> isl (llm (Debate_call r a))" by simp
  from Cons.IH [OF this] x show ?case by (simp add: Let_def)
qed

lemma debate_loop_total:
  "\<forall>r \<in> set rs. \<forall>a \<in> set ex. \<not> isl (llm (Debate_call r a)) \<Longrightarrow>
     \<exists>s' d. debate_loop llm ex rs h rn s = (s', Returned d)"
proof (induction rs arbitrary: h rn s)
  case Nil
  then show ?case by simp
next
  case (Cons r rs)
  from Cons.prems have "\<forall>a \<in> set ex. \<not> isl (llm (Debate_call r a))" by simp
  from debate_agents_total [OF this] obtain s1 h1 ra where
    ag: "debate_agents llm r ex h [] (emit_event (Debate_round_started r) s) = (s1, Returned (h1, ra))"
    by blast
  note step = debate_loop_step [OF ag, of rs rn]
  from Cons.prems have rest: "\<forall>r \<in> set rs. \<forall>a \<in> set ex. \<not> isl (llm (Debate_call r a))" by simp
  show ?case
  proof (cases "r < max_rounds \<and> 70 \<le> assess_consensus ra")
    case True
    with step show ?thesis by simp
  next
    case False
    with step Cons.IH [OF rest] show ?thesis by simp
  qed
qed

lemma phase_debate_total:
  assumes "\<forall>r a. \<not> isl (llm (Debate_call r a))"
  shows "\<exists>s'. phase_debate llm agents sys = (s', Returned ())"
proof -
  from assms have "\<forall>r \<in> set [1..<max_rounds + 1]. \<forall>a \<in> set (domain_experts agents).
      \<not> isl (llm (Debate_call r a))"
    by simp
  from debate_loop_total [OF this] obtain s1 d where
    "debate_loop llm (domain_experts agents) [1..<max_rounds + 1] [] 0 (emit_event (Phase_started 4) sys)
       = (s1, Returned d)"
    by blast
  then show ?thesis by (simp add: phase_debate_def)
qed

text \<open>
  Every round that the loop completes is a run of \<open>debate_agents\<close> that starts from the
  history accumulated so far and returns it with the entries of the round appended.
\<close>

lemma debate_loop_rounds:
  "debate_loop llm ex rs h rn s = (s', Returned d) \<Longrightarrow>
     \<exists>ks. prefix ks rs
       \<and> history d = h @ concat (map (round_entries llm ex) ks)
       \<and> rounds d = last (rn # ks)
       \<and> (\<forall>i < length ks. \<exists>s0 s1 ra.
             debate_agents llm (ks ! i) ex (h @ concat (map (round_entries llm ex) (take i ks))) [] s0
               = (s1, Returned (h @ concat (map (round_entries llm ex) (take (Suc i) ks)), ra)))"
proof (induction rs arbitrary: h rn s)
  case Nil
  then show ?case by auto
next
  case (Cons r rs)
  obtain s1 o1 where ag0: "debate_agents llm r ex h [] (emit_event (Debate_round_started r) s) = (s1, o1)"
    by (cases "debate_agents llm r ex h [] (emit_event (Debate_round_started r) s)")
  have "\<exists>h1 ra. o1 = Returned (h1, ra)"
  proof (cases o1)
    case (Raised e)
    with debate_loop_raised [of llm r ex h s s1 e rs rn] ag0 Cons.prems show ?thesis by simp
  next
    case (Returned v)
    then show ?thesis by (cases v) simp
  qed
  then obtain h1 ra where
    ag: "debate_agents llm r ex h [] (emit_event (Debate_round_started r) s) = (s1, Returned (h1, ra))"
    using ag0 by blast
  note step = debate_loop_step [OF ag, of rs rn]
  from debate_agents_returned [OF ag] have h1: "h1 = h @ round_entries llm ex r"
    by simp
  have first: "\<exists>s0 s1 ra. debate_agents llm r ex h [] s0 = (s1, Returned (h @ round_entries llm ex r, ra))"
    using ag h1 by blast
  show ?case
  proof (cases "r < max_rounds \<and> 70 \<le> assess_consensus ra")
    case True
    with Cons.prems step have d: "d = \<lparr>history = h1, rounds = r, consensus_reached = True\<rparr>"
      by simp
    have "prefix [r] (r # rs)" by simp
    moreover have "history d = h @ concat (map (round_entries llm ex) [r])" using d h1 by simp
    moreover have "rounds d = last (rn # [r])" using d by simp
    moreover have "\<forall>i < length [r]. \<exists>s0 s1 ra.
             debate_agents llm ([r] ! i) ex (h @ concat (map (round_entries llm ex) (take i [r]))) [] s0
               = (s1, Returned (h @ concat (map (round_entries llm ex) (take (Suc i) [r])), ra))"
      using first by simp
    ultimately show ?thesis by blast
  next
    case False
    with Cons.prems step obtain s2 where
      rec: "debate_loop llm ex rs h1 r s2 = (s', Returned d)"
      by simp
    from Cons.IH [OF rec] obtain ks where ks:
      "prefix ks rs" "history d = h1 @ concat (map (round_entries llm ex) ks)"
      "rounds d = last (r # ks)"
      "\<forall>i < length ks. \<exists>s0 s1 ra.
             debate_agents llm (ks ! i) ex (h1 @ concat (map (round_entries llm ex) (take i ks))) [] s0
               = (s1, Returned (h1 @ concat (map (round_entries llm ex) (take (Suc i) ks)), ra))"
      by blast
    have "prefix (r # ks) (r # rs)" using ks(1) by simp
    moreover have "history d = h @ concat (map (round_entries llm ex) (r # ks))" using ks(2) h1 by simp
    moreover have "rounds d = last (rn # r # ks)" using ks(3) by simp
    moreover have "\<forall>i < length (r # ks). \<exists>s0 s1 ra.
             debate_agents llm ((r # ks) ! i) ex (h @ concat (map (round_entries llm ex) (take i (r # ks)))) [] s0
               = (s1, Returned (h @ concat (map (round_entries llm ex) (take (Suc i) (r # ks))), ra))"
    proof (intro allI impI)
      fix i
      assume i: "i < length (r # ks)"
      show "\<exists>s0 s1 ra.
             debate_agents llm ((r # ks) ! i) ex (h @ concat (map (round_entries llm ex) (take i (r # ks)))) [] s0
               = (s1, Returned (h @ concat (map (round_entries llm ex) (take (Suc i) (r # ks))), ra))"
      proof (cases i)
        case 0
        with first show ?thesis by simp
      next
        case (Suc j)
        with i have "j < length ks" by simp
        with ks(4) have "\<exists>s0 s1 ra.
             debate_agents llm (ks ! j) ex (h1 @ concat (map (round_entries llm ex) (take j ks))) [] s0
               = (s1, Returned (h1 @ concat (map (round_entries llm ex) (take (Suc j) ks)), ra))"
          by blast
        with Suc h1 show ?thesis by simp
      qed
    qed
    ultimately show ?thesis by blast
  qed
qed

lemma fl64_0: "fl64 0 = 0"
  by code_simp

lemma fl64_200: "fl64 200 = 200"
  by code_simp

lemma debate_phase_record:
  assumes "debate_loop llm ex [1, 2, 3] [] 0 s = (s1, Returned d)"
  shows "1 \<le> rounds d \<and> rounds d \<le> 3"
    and "history d = concat (map (round_entries llm ex) [1..<rounds d + 1])"
    and "\<forall>r. 1 \<le> r \<and> r \<le> rounds d \<longrightarrow>
           (\<exists>s0 s1 ra. debate_agents llm r ex (concat (map (round_entries llm ex) [1..<r])) [] s0
              = (s1, Returned (concat (map (round_entries llm ex) [1..<r + 1]), ra)))"
proof -
  from debate_record_shape [OF assms] have rd: "rounds d = 1 \<or> rounds d = 2 \<or> rounds d = 3"
    by blast
  then show "1 \<le> rounds d \<and> rounds d \<le> 3" by auto
  from debate_loop_rounds [OF assms] obtain ks where ks:
    "prefix ks [1, 2, 3]" "history d = [] @ concat (map (round_entries llm ex) ks)"
    "rounds d = last (0 # ks)"
    "\<forall>i < length ks. \<exists>s0 s1 ra.
       debate_agents llm (ks ! i) ex ([] @ concat (map (round_entries llm ex) (take i ks))) [] s0
         = (s1, Returned ([] @ concat (map (round_entries llm ex) (take (Suc i) ks)), ra))"
    by blast
  from prefix_of_three [OF ks(1)] ks(3) rd have
    "ks = [1] \<and> rounds d = 1 \<or> ks = [1, 2] \<and> rounds d = 2 \<or> ks = [1, 2, 3] \<and> rounds d = 3"
    by auto
  moreover have "[1..<1 + 1] = [1::nat]" "[1..<2 + 1] = [1, 2::nat]" "[1..<3 + 1] = [1, 2, 3::nat]"
    by (simp_all add: upt_rec)
  ultimately have kr: "ks = [1..<rounds d + 1]"
    by (elim disjE conjE) simp_all
  with ks(2) show "history d = concat (map (round_entries llm ex) [1..<rounds d + 1])"
    by simp
  from ks(4) have step: "\<forall>i < length ks. \<exists>s0 s1 ra.
       debate_agents llm (ks ! i) ex (concat (map (round_entries llm ex) (take i ks))) [] s0
         = (s1, Returned (concat (map (round_entries llm ex) (take (Suc i) ks)), ra))"
    by simp
  show "\<forall>r. 1 \<le> r \<and> r \<le> rounds d \<longrightarrow>
           (\<exists>s0 s1 ra. debate_agents llm r ex (concat (map (round_entries llm ex) [1..<r])) [] s0
              = (s1, Returned (concat (map (round_entries llm ex) [1..<r + 1]), ra)))"
  proof (intro allI impI)
    fix r
    assume r: "1 \<le> r \<and> r \<le> rounds d"
    then obtain j where j: "r = Suc j" by (cases r) simp_all
    with r have i: "j < length ks" using kr by simp
    from r j have eqs: "ks ! j = Suc j" "take j ks = [1..<Suc j]" "take (Suc j) ks = [1..<Suc j + 1]"
      unfolding kr by (simp_all del: upt_Suc)
    from step i have "\<exists>s0 s1 ra.
       debate_agents llm (ks ! j) ex (concat (map (round_entries llm ex) (take j ks))) [] s0
         = (s1, Returned (concat (map (round_entries llm ex) (take (Suc j) ks)), ra))"
      by blast
    then show "\<exists>s0 s1 ra. debate_agents llm r ex (concat (map (round_entries llm ex) [1..<r])) [] s0
              = (s1, Returned (concat (map (round_entries llm ex) [1..<r + 1]), ra))"
      unfolding eqs j .
  qed
qed

lemma length_rounds:
  "length (concat (map (round_entries llm ex) [a..<a + n])) = n * length ex"
  by (induction n) (simp_all add: round_entries_def)

lemma take_rounds:
  assumes "r \<le> k"
  shows "take (r * length ex) (concat (map (round_entries llm ex) [1..<k + 1]))
           = concat (map (round_entries llm ex) [1..<r + 1])"
proof -
  from assms have "[1..<k + 1] = [1..<1 + r] @ [1 + r..<1 + r + (k - r)]"
    using upt_add_eq_append [of 1 "1 + r" "k - r"] by simp
  then have "concat (map (round_entries llm ex) [1..<k + 1])
      = concat (map (round_entries llm ex) [1..<1 + r])
        @ concat (map (round_entries llm ex) [1 + r..<1 + r + (k - r)])"
    by simp
  moreover have "length (concat (map (round_entries llm ex) [1..<1 + r])) = r * length ex"
    by (rule length_rounds)
  ultimately show ?thesis by simp
qed

lemma witness_round_scores:
  "assess_consensus [(''economic'', ''I oppose''), (''social'', ''I oppose'')] = 0"
  "assess_consensus [(''economic'', ''I agree''), (''social'', ''I agree'')] = 100"
proof -
  have k: "keyword_count agreement_keywords (lower ''I oppose'') = 0"
    "keyword_count disagreement_keywords (lower ''I oppose'') = 1"
    "keyword_count agreement_keywords (lower ''I agree'') = 1"
    "keyword_count disagreement_keywords (lower ''I agree'') = 0"
    by code_simp+
  show "assess_consensus [(''economic'', ''I oppose''), (''social'', ''I oppose'')] = 0"
    by (simp add: assess_consensus_def argument_score_def Let_def k fl64_0 py_int_def)
  show "assess_consensus [(''economic'', ''I agree''), (''social'', ''I agree'')] = 100"
    by (simp add: assess_consensus_def argument_score_def Let_def k fl64_1 fl64_100 fl64_200 py_int_def)
qed

lemma debate_scores:
  assumes "debate_loop llm ex [1, 2, 3] [] 0 s = (s1, Returned d)"
  shows "consensus_reached d \<longleftrightarrow> rounds d < 3"
    and "\<forall>r. 1 \<le> r \<and> r \<le> rounds d \<longrightarrow>
           assess_consensus (round_arguments_of (history d) r) = round_score llm ex r"
    and "\<forall>r. 1 \<le> r \<and> r \<le> rounds d \<and> r < 3 \<longrightarrow> (70 \<le> round_score llm ex r \<longleftrightarrow> rounds d = r)"
proof -
  have sc: "assess_consensus (round_arguments_of (round_entries llm ex 1) 1) = round_score llm ex 1"
    "assess_consensus (round_arguments_of (round_entries llm ex 1 @ round_entries llm ex 2) 1)
       = round_score llm ex 1"
    "assess_consensus (round_arguments_of (round_entries llm ex 1 @ round_entries llm ex 2) 2)
       = round_score llm ex 2"
    "assess_consensus (round_arguments_of
        (round_entries llm ex 1 @ round_entries llm ex 2 @ round_entries llm ex 3) 1)
       = round_score llm ex 1"
    "assess_consensus (round_arguments_of
        (round_entries llm ex 1 @ round_entries llm ex 2 @ round_entries llm ex 3) 2)
       = round_score llm ex 2"
    "assess_consensus (round_arguments_of
        (round_entries llm ex 1 @ round_entries llm ex 2 @ round_entries llm ex 3) 3)
       = round_score llm ex 3"
    by (simp_all add: round_arguments_of_def filter_round_entries round_score_def)
  from debate_record_shape [OF assms] consider
    (one) "rounds d = 1" "consensus_reached d" "history d = round_entries llm ex 1"
      "70 \<le> round_score llm ex 1"
  | (two) "rounds d = 2" "consensus_reached d"
      "history d = round_entries llm ex 1 @ round_entries llm ex 2"
      "\<not> 70 \<le> round_score llm ex 1" "70 \<le> round_score llm ex 2"
  | (three) "rounds d = 3" "\<not> consensus_reached d"
      "history d = round_entries llm ex 1 @ round_entries llm ex 2 @ round_entries llm ex 3"
      "\<not> 70 \<le> round_score llm ex 1" "\<not> 70 \<le> round_score llm ex 2"
    by blast
  then have "(consensus_reached d \<longleftrightarrow> rounds d < 3)
      \<and> (\<forall>r. 1 \<le> r \<and> r \<le> rounds d \<longrightarrow>
           assess_consensus (round_arguments_of (history d) r) = round_score llm ex r)
      \<and> (\<forall>r. 1 \<le> r \<and> r \<le> rounds d \<and> r < 3 \<longrightarrow> (70 \<le> round_score llm ex r \<longleftrightarrow> rounds d = r))"
  proof cases
    case one
    have "assess_consensus (round_arguments_of (history d) r) = round_score llm ex r
        \<and> (70 \<le> round_score llm ex r \<longleftrightarrow> rounds d = r)"
      if "1 \<le> r" "r \<le> rounds d" for r
    proof -
      from that one(1) have "r = 1" by simp
      with one sc(1) show ?thesis by simp
    qed
    then have A: "\<forall>r. 1 \<le> r \<and> r \<le> rounds d \<longrightarrow>
           assess_consensus (round_arguments_of (history d) r) = round_score llm ex r"
      and B: "\<forall>r. 1 \<le> r \<and> r \<le> rounds d \<and> r < 3 \<longrightarrow> (70 \<le> round_score llm ex r \<longleftrightarrow> rounds d = r)"
      by blast+
    have "consensus_reached d \<longleftrightarrow> rounds d < 3" using one(1,2) by simp
    with A B show ?thesis by blast
  next
    case two
    have "assess_consensus (round_arguments_of (history d) r) = round_score llm ex r
        \<and> (70 \<le> round_score llm ex r \<longleftrightarrow> rounds d = r)"
      if "1 \<le> r" "r \<le> rounds d" for r
    proof -
      from that two(1) have "r = 1 \<or> r = 2" by auto
      then show ?thesis
      proof
        assume "r = 1"
        with two sc(2) show ?thesis by simp
      next
        assume "r = 2"
        with two sc(3) show ?thesis by simp
      qed
    qed
    then have A: "\<forall>r. 1 \<le> r \<and> r \<le> rounds d \<longrightarrow>
           assess_consensus (round_arguments_of (history d) r) = round_score llm ex r"
      and B: "\<forall>r. 1 \<le> r \<and> r \<le> rounds d \<and> r < 3 \<longrightarrow> (70 \<le> round_score llm ex r \<longleftrightarrow> rounds d = r)"
      by blast+
    have "consensus_reached d \<longleftrightarrow> rounds d < 3" using two(1,2) by simp
    with A B show ?thesis by blast
  next
    case three
    have a: "assess_consensus (round_arguments_of (history d) r) = round_score llm ex r"
      if "1 \<le> r" "r \<le> rounds d" for r
    proof -
      from that three(1) have "r = 1 \<or> r = 2 \<or> r = 3" by auto
      then show ?thesis
      proof (elim disjE)
        assume "r = 1"
        with three sc(4) show ?thesis by simp
      next
        assume "r = 2"
        with three sc(5) show ?thesis by simp
      next
        assume "r = 3"
        with three sc(6) show ?thesis by simp
      qed
    qed
    have b: "70 \<le> round_score llm ex r \<longleftrightarrow> rounds d = r" if "1 \<le> r" "r < 3" for r
    proof -
      from that have "r = 1 \<or> r = 2" by auto
      then show ?thesis
      proof
        assume "r = 1"
        with three show ?thesis by simp
      next
        assume "r = 2"
        with three show ?thesis by simp
      qed
    qed
    from a have A: "\<forall>r. 1 \<le> r \<and> r \<le> rounds d \<longrightarrow>
           assess_consensus (round_arguments_of (history d) r) = round_score llm ex r"
      by blast
    from b three(1) have B: "\<forall>r. 1 \<le> r \<and> r \<le> rounds d \<and> r < 3 \<longrightarrow> (70 \<le> round_score llm ex r \<longleftrightarrow> rounds d = r)"
      by auto
    have "consensus_reached d \<longleftrightarrow> rounds d < 3" using three(1,2) by simp
    with A B show ?thesis by blast
  qed
  then show "consensus_reached d \<longleftrightarrow> rounds d < 3"
    and "\<forall>r. 1 \<le> r \<and> r \<le> rounds d \<longrightarrow>
           assess_consensus (round_arguments_of (history d) r) = round_score llm ex r"
    and "\<forall>r. 1 \<le> r \<and> r \<le> rounds d \<and> r < 3 \<longrightarrow> (70 \<le> round_score llm ex r \<longleftrightarrow> rounds d = r)"
    by blast+
qed

lemma debate_history_calls:
  assumes "debate_loop llm ex [1, 2, 3] [] 0 s = (s1, Returned d)"
  shows "\<forall>e \<in> set (history d). llm (Debate_call (round_num e) (agent_id e)) = Inr (argument e)"
proof
  fix e
  assume "e \<in> set (history d)"
  with debate_phase_record(2) [OF assms] obtain r where
    r: "r \<in> set [1..<rounds d + 1]" "e \<in> set (round_entries llm ex r)"
    by auto
  then obtain a where a: "a \<in> set ex" "e = debate_entry llm r a"
    by (auto simp: round_entries_def)
  from r(1) have "1 \<le> r \<and> r \<le> rounds d" by auto
  with debate_phase_record(3) [OF assms] obtain s0 s2 ra where
    "debate_agents llm r ex (concat (map (round_entries llm ex) [1..<r])) [] s0
       = (s2, Returned (concat (map (round_entries llm ex) [1..<r + 1]), ra))"
    by blast
  from debate_agents_calls [OF this] a show "llm (Debate_call (round_num e) (agent_id e)) = Inr (argument e)"
    by (simp add: debate_entry_def)
qed

lemma witness_two_rounds:
  "phase_debate
     (\<lambda>c. Inr (if c = Debate_call 1 ''economic'' \<or> c = Debate_call 1 ''social'' then ''I oppose'' else ''I agree''))
     [''problem_statement'', ''economic'', ''social''] (new_system True)
   = (fst (phase_debate
        (\<lambda>c. Inr (if c = Debate_call 1 ''economic'' \<or> c = Debate_call 1 ''social'' then ''I oppose'' else ''I agree''))
        [''problem_statement'', ''economic'', ''social''] (new_system True)),
      Returned ())"
  "debate (sys_results (fst (phase_debate
     (\<lambda>c. Inr (if c = Debate_call 1 ''economic'' \<or> c = Debate_call 1 ''social'' then ''I oppose'' else ''I agree''))
     [''problem_statement'', ''economic'', ''social''] (new_system True))))
   = Some \<lparr>history =
       [\<lparr>round_num = 1, agent_id = ''economic'', agent_name = agent_title ''economic'', argument = ''I oppose''\<rparr>,
        \<lparr>round_num = 1, agent_id = ''social'', agent_name = agent_title ''social'', argument = ''I oppose''\<rparr>,
        \<lparr>round_num = 2, agent_id = ''economic'', agent_name = agent_title ''economic'', argument = ''I agree''\<rparr>,
        \<lparr>round_num = 2, agent_id = ''social'', agent_name = agent_title ''social'', argument = ''I agree''\<rparr>],
      rounds = 2, consensus_reached = True\<rparr>"
  by (simp_all add: phase_debate_def domain_experts_def orchestration_roles_def max_rounds_def upt_rec
      Let_def witness_round_scores emit_event_def new_system_def)

section \<open>The debate loop\<close>

text \<open>
  C1: a debate phase that returns has run one, two or three rounds, and its history holds,
  round by round and expert by expert, the arguments that the invocations returned.  The
  consensus score read from the recorded arguments of a round is the score of what the
  experts returned in that round.  For every round \<open>r < 3\<close> that was run, the loop stopped at
  \<open>r\<close> exactly when that score was at least 70; the consensus flag is set exactly when the
  loop stopped before round 3, and the recorded number of rounds is the round it stopped at.
  The phase returns whenever no invocation raises.
\<close>

theorem debate_round_cap_and_early_exit:
  "(phase_debate llm agents sys = (sys', Returned u) \<longrightarrow>
      (\<exists>d. debate (sys_results sys') = Some d
         \<and> 1 \<le> rounds d \<and> rounds d \<le> 3
         \<and> history d = concat (map (round_entries llm (domain_experts agents)) [1..<rounds d + 1])
         \<and> (\<forall>e \<in> set (history d). llm (Debate_call (round_num e) (agent_id e)) = Inr (argument e))
         \<and> (consensus_reached d \<longleftrightarrow> rounds d < 3)
         \<and> (\<forall>r. 1 \<le> r \<and> r \<le> rounds d \<longrightarrow>
               assess_consensus (round_arguments_of (history d) r)
                 = round_score llm (domain_experts agents) r)
         \<and> (\<forall>r. 1 \<le> r \<and> r \<le> rounds d \<and> r < 3 \<longrightarrow>
               (70 \<le> round_score llm (domain_experts agents) r \<longleftrightarrow> rounds d = r))))
   \<and> ((\<forall>r a. \<not> isl (llm (Debate_call r a))) \<longrightarrow>
        (\<exists>s1. phase_debate llm agents sys = (s1, Returned ())))"
proof (intro conjI impI)
  assume "phase_debate llm agents sys = (sys', Returned u)"
  from phase_debate_returned [OF this] obtain s1 d where
    l: "debate_loop llm (domain_experts agents) [1, 2, 3] [] 0 (emit_event (Phase_started 4) sys)
        = (s1, Returned d)"
    and d: "debate (sys_results sys') = Some d"
    by blast
  from d debate_phase_record(1,2) [OF l] debate_history_calls [OF l] debate_scores [OF l]
  show "\<exists>d. debate (sys_results sys') = Some d
         \<and> 1 \<le> rounds d \<and> rounds d \<le> 3
         \<and> history d = concat (map (round_entries llm (domain_experts agents)) [1..<rounds d + 1])
         \<and> (\<forall>e \<in> set (history d). llm (Debate_call (round_num e) (agent_id e)) = Inr (argument e))
         \<and> (consensus_reached d \<longleftrightarrow> rounds d < 3)
         \<and> (\<forall>r. 1 \<le> r \<and> r \<le> rounds d \<longrightarrow>
               assess_consensus (round_arguments_of (history d) r)
                 = round_score llm (domain_experts agents) r)
         \<and> (\<forall>r. 1 \<le> r \<and> r \<le> rounds d \<and> r < 3 \<longrightarrow>
               (70 \<le> round_score llm (domain_experts agents) r \<longleftrightarrow> rounds d = r))"
    by blast
next
  assume "\<forall>r a. \<not> isl (llm (Debate_call r a))"
  from phase_debate_total [OF this] show "\<exists>s1. phase_debate llm agents sys = (s1, Returned ())" .
qed

theorem debate_round_cap_and_early_exit_witness:
  "phase_debate
      (\<lambda>c. Inr (if c = Debate_call 1 ''economic'' \<or> c = Debate_call 1 ''social'' then ''I oppose'' else ''I agree''))
      [''problem_statement'', ''economic'', ''social''] (new_system True)
     = (fst (phase_debate
      (\<lambda>c. Inr (if c = Debate_call 1 ''economic'' \<or> c = Debate_call 1 ''social'' then ''I oppose'' else ''I agree''))
      [''problem_statement'', ''economic'', ''social''] (new_system True)),
        Returned ())
   \<and> debate (sys_results (fst (phase_debate
      (\<lambda>c. Inr (if c = Debate_call 1 ''economic'' \<or> c = Debate_call 1 ''social'' then ''I oppose'' else ''I agree''))
      [''problem_statement'', ''economic'', ''social''] (new_system True))))
     = Some \<lparr>history =
     [\<lparr>round_num = 1, agent_id = ''economic'', agent_name = agent_title ''economic'', argument = ''I oppose''\<rparr>,
      \<lparr>round_num = 1, agent_id = ''social'', agent_name = agent_title ''social'', argument = ''I oppose''\<rparr>,
      \<lparr>round_num = 2, agent_id = ''economic'', agent_name = agent_title ''economic'', argument = ''I agree''\<rparr>,
      \<lparr>round_num = 2, agent_id = ''social'', agent_name = agent_title ''social'', argument = ''I agree''\<rparr>],
     rounds = 2, consensus_reached = True\<rparr>
   \<and> domain_experts [''problem_statement'', ''economic'', ''social''] = [''economic'', ''social'']
   \<and> round_score
      (\<lambda>c. Inr (if c = Debate_call 1 ''economic'' \<or> c = Debate_call 1 ''social'' then ''I oppose'' else ''I agree''))
      [''economic'', ''social''] 1 = 0
   \<and> round_score
      (\<lambda>c. Inr (if c = Debate_call 1 ''economic'' \<or> c = Debate_call 1 ''social'' then ''I oppose'' else ''I agree''))
      [''economic'', ''social''] 2 = 100
   \<and> \<not> 70 \<le> round_score
      (\<lambda>c. Inr (if c = Debate_call 1 ''economic'' \<or> c = Debate_call 1 ''social'' then ''I oppose'' else ''I agree''))
      (domain_experts [''problem_statement'', ''economic'', ''social'']) 1
   \<and> 70 \<le> round_score
      (\<lambda>c. Inr (if c = Debate_call 1 ''economic'' \<or> c = Debate_call 1 ''social'' then ''I oppose'' else ''I agree''))
      (domain_experts [''problem_statement'', ''economic'', ''social'']) 2"
proof -
  let ?W = "(\<lambda>c. Inr (if c = Debate_call 1 ''economic'' \<or> c = Debate_call 1 ''social'' then ''I oppose'' else ''I agree''))"
  let ?ags = "[''problem_statement'', ''economic'', ''social'']"
  note run = witness_two_rounds
  from debate_round_cap_and_early_exit [of ?W ?ags "new_system True" "fst (phase_debate ?W ?ags (new_system True))" "()"]
    run(1)
  obtain d where d: "debate (sys_results (fst (phase_debate ?W ?ags (new_system True)))) = Some d"
    and e: "\<forall>r. 1 \<le> r \<and> r \<le> rounds d \<and> r < 3 \<longrightarrow>
               (70 \<le> round_score ?W (domain_experts ?ags) r \<longleftrightarrow> rounds d = r)"
    by blast
  from d run(2) have r: "rounds d = 2" by simp
  from e have "1 \<le> (1::nat) \<and> 1 \<le> rounds d \<and> (1::nat) < 3 \<longrightarrow>
      (70 \<le> round_score ?W (domain_experts ?ags) 1 \<longleftrightarrow> rounds d = 1)"
    by blast
  with r have n1: "\<not> 70 \<le> round_score ?W (domain_experts ?ags) 1" by simp
  from e have "1 \<le> (2::nat) \<and> 2 \<le> rounds d \<and> (2::nat) < 3 \<longrightarrow>
      (70 \<le> round_score ?W (domain_experts ?ags) 2 \<longleftrightarrow> rounds d = 2)"
    by blast
  with r have n2: "70 \<le> round_score ?W (domain_experts ?ags) 2" by simp
  have ex: "domain_experts ?ags = [''economic'', ''social'']"
    by (simp add: domain_experts_def orchestration_roles_def)
  have sc: "round_score ?W [''economic'', ''social''] 1 = 0" "round_score ?W [''economic'', ''social''] 2 = 100"
    by (simp_all add: round_score_def round_entries_def debate_entry_def dict_of_def witness_round_scores)
  from run n1 n2 ex sc show ?thesis by blast
qed

section \<open>The debate history\<close>

text \<open>
  C7: a completed round returns the history it started from with one entry per domain
  expert appended, in the order of the invocations: the entries that were there stay as
  they are, and the length grows by the number of experts.  A debate phase that returns has
  run between one and three rounds; its history lists the rounds in order and, within a
  round, the experts in order; and every round \<open>r\<close> of the phase is such a run of the round
  that starts from the first \<open>(r - 1) * n\<close> entries of the final history and returns its
  first \<open>r * n\<close> entries, \<open>n\<close> being the number of domain experts.
\<close>

theorem debate_history_append_only:
  "(debate_agents llm r experts hist ra sys = (sys1, Returned (hist', ra')) \<longrightarrow>
      hist' = hist @ round_entries llm experts r
      \<and> length hist' = length hist + length experts
      \<and> take (length hist) hist' = hist
      \<and> map (\<lambda>e. (round_num e, agent_id e)) (drop (length hist) hist') = map (\<lambda>a. (r, a)) experts)
   \<and> (phase_debate llm agents sys = (sys', Returned u) \<longrightarrow>
      (\<exists>d. debate (sys_results sys') = Some d
           \<and> 1 \<le> rounds d \<and> rounds d \<le> 3
           \<and> length (history d) = rounds d * length (domain_experts agents)
           \<and> map (\<lambda>e. (round_num e, agent_id e)) (history d)
               = concat (map (\<lambda>r. map (\<lambda>a. (r, a)) (domain_experts agents)) [1..<rounds d + 1])
           \<and> (\<forall>r. 1 \<le> r \<and> r \<le> rounds d \<longrightarrow>
                (\<exists>s0 s1 ra. debate_agents llm r (domain_experts agents)
                      (take ((r - 1) * length (domain_experts agents)) (history d)) [] s0
                   = (s1, Returned (take (r * length (domain_experts agents)) (history d), ra))))))"
proof (intro conjI impI)
  have m: "map (\<lambda>e. (round_num e, agent_id e)) (round_entries llm ex k) = map (\<lambda>a. (k, a)) ex" for ex k
    by (simp add: round_entries_def debate_entry_def)
  have n: "length (round_entries llm ex k) = length ex" for ex k
    by (simp add: round_entries_def)
  {
    assume "debate_agents llm r experts hist ra sys = (sys1, Returned (hist', ra'))"
    from debate_agents_returned [OF this] have h: "hist' = hist @ round_entries llm experts r"
      by simp
    then show "hist' = hist @ round_entries llm experts r" .
    from h show "length hist' = length hist + length experts" by (simp add: n)
    from h show "take (length hist) hist' = hist" by simp
    from h show "map (\<lambda>e. (round_num e, agent_id e)) (drop (length hist) hist') = map (\<lambda>a. (r, a)) experts"
      by (simp add: m)
  }
  assume "phase_debate llm agents sys = (sys', Returned u)"
  from phase_debate_returned [OF this] obtain s1 d where
    l: "debate_loop llm (domain_experts agents) [1, 2, 3] [] 0 (emit_event (Phase_started 4) sys)
        = (s1, Returned d)"
    and d: "debate (sys_results sys') = Some d"
    by blast
  let ?ex = "domain_experts agents"
  note rec = debate_phase_record [OF l]
  have len: "length (history d) = rounds d * length ?ex"
    using rec(2) length_rounds [of llm ?ex 1 "rounds d"] by simp
  have ord: "map (\<lambda>e. (round_num e, agent_id e)) (history d)
      = concat (map (\<lambda>r. map (\<lambda>a. (r, a)) ?ex) [1..<rounds d + 1])"
    unfolding rec(2) by (simp only: map_concat map_map o_def m)
  have tie: "\<exists>s0 s1 ra. debate_agents llm r ?ex (take ((r - 1) * length ?ex) (history d)) [] s0
                   = (s1, Returned (take (r * length ?ex) (history d), ra))"
    if "1 \<le> r \<and> r \<le> rounds d" for r
  proof -
    from that obtain j where j: "r = Suc j" by (cases r) simp_all
    with that have jl: "j \<le> rounds d" and sl: "Suc j \<le> rounds d" by simp_all
    have "take (j * length ?ex) (history d) = concat (map (round_entries llm ?ex) [1..<j + 1])"
      unfolding rec(2) by (rule take_rounds [OF jl])
    moreover have "take (Suc j * length ?ex) (history d) = concat (map (round_entries llm ?ex) [1..<Suc j + 1])"
      unfolding rec(2) by (rule take_rounds [OF sl])
    moreover from rec(3) that j have "\<exists>s0 s1 ra.
        debate_agents llm (Suc j) ?ex (concat (map (round_entries llm ?ex) [1..<Suc j])) [] s0
          = (s1, Returned (concat (map (round_entries llm ?ex) [1..<Suc j + 1]), ra))"
      by blast
    ultimately show ?thesis using j by simp
  qed
  from d rec(1) len ord tie
  show "\<exists>d. debate (sys_results sys') = Some d
           \<and> 1 \<le> rounds d \<and> rounds d \<le> 3
           \<and> length (history d) = rounds d * length (domain_experts agents)
           \<and> map (\<lambda>e. (round_num e, agent_id e)) (history d)
               = concat (map (\<lambda>r. map (\<lambda>a. (r, a)) (domain_experts agents)) [1..<rounds d + 1])
           \<and> (\<forall>r. 1 \<le> r \<and> r \<le> rounds d \<longrightarrow>
                (\<exists>s0 s1 ra. debate_agents llm r (domain_experts agents)
                      (take ((r - 1) * length (domain_experts agents)) (history d)) [] s0
                   = (s1, Returned (take (r * length (domain_experts agents)) (history d), ra))))"
    by blast
qed

lemma witness_second_round:
  "debate_agents
      (\<lambda>c. Inr (if c = Debate_call 1 ''economic'' \<or> c = Debate_call 1 ''social'' then ''I oppose'' else ''I agree''))
      2 [''economic'', ''social'']
     [\<lparr>round_num = 1, agent_id = ''economic'', agent_name = agent_title ''economic'', argument = ''I oppose''\<rparr>,
      \<lparr>round_num = 1, agent_id = ''social'', agent_name = agent_title ''social'', argument = ''I oppose''\<rparr>]
     [] (new_system True)
   = (fst (debate_agents
      (\<lambda>c. Inr (if c = Debate_call 1 ''economic'' \<or> c = Debate_call 1 ''social'' then ''I oppose'' else ''I agree''))
      2 [''economic'', ''social'']
     [\<lparr>round_num = 1, agent_id = ''economic'', agent_name = agent_title ''economic'', argument = ''I oppose''\<rparr>,
      \<lparr>round_num = 1, agent_id = ''social'', agent_name = agent_title ''social'', argument = ''I oppose''\<rparr>]
     [] (new_system True)),
      Returned
       ([\<lparr>round_num = 1, agent_id = ''economic'', agent_name = agent_title ''economic'', argument = ''I oppose''\<rparr>,
      \<lparr>round_num = 1, agent_id = ''social'', agent_name = agent_title ''social'', argument = ''I oppose''\<rparr>,
      \<lparr>round_num = 2, agent_id = ''economic'', agent_name = agent_title ''economic'', argument = ''I agree''\<rparr>,
      \<lparr>round_num = 2, agent_id = ''social'', agent_name = agent_title ''social'', argument = ''I agree''\<rparr>],
        [(''economic'', ''I agree''), (''social'', ''I agree'')]))"
  by (simp add: Let_def)

theorem debate_history_append_only_witness:
  "debate_agents
      (\<lambda>c. Inr (if c = Debate_call 1 ''economic'' \<or> c = Debate_call 1 ''social'' then ''I oppose'' else ''I agree''))
      2 [''economic'', ''social'']
     [\<lparr>round_num = 1, agent_id = ''economic'', agent_name = agent_title ''economic'', argument = ''I oppose''\<rparr>,
      \<lparr>round_num = 1, agent_id = ''social'', agent_name = agent_title ''social'', argument = ''I oppose''\<rparr>]
     [] (new_system True)
     = (fst (debate_agents
      (\<lambda>c. Inr (if c = Debate_call 1 ''economic'' \<or> c = Debate_call 1 ''social'' then ''I oppose'' else ''I agree''))
      2 [''economic'', ''social'']
     [\<lparr>round_num = 1, agent_id = ''economic'', agent_name = agent_title ''economic'', argument = ''I oppose''\<rparr>,
      \<lparr>round_num = 1, agent_id = ''social'', agent_name = agent_title ''social'', argument = ''I oppose''\<rparr>]
     [] (new_system True)),
        Returned
         ([\<lparr>round_num = 1, agent_id = ''economic'', agent_name = agent_title ''economic'', argument = ''I oppose''\<rparr>,
      \<lparr>round_num = 1, agent_id = ''social'', agent_name = agent_title ''social'', argument = ''I oppose''\<rparr>,
      \<lparr>round_num = 2, agent_id = ''economic'', agent_name = agent_title ''economic'', argument = ''I agree''\<rparr>,
      \<lparr>round_num = 2, agent_id = ''social'', agent_name = agent_title ''social'', argument = ''I agree''\<rparr>],
          [(''economic'', ''I agree''), (''social'', ''I agree'')]))
   \<and> length
       [\<lparr>round_num = 1, agent_id = ''economic'', agent_name = agent_title ''economic'', argument = ''I oppose''\<rparr>,
      \<lparr>round_num = 1, agent_id = ''social'', agent_name = agent_title ''social'', argument = ''I oppose''\<rparr>,
      \<lparr>round_num = 2, agent_id = ''economic'', agent_name = agent_title ''economic'', argument = ''I agree''\<rparr>,
      \<lparr>round_num = 2, agent_id = ''social'', agent_name = agent_title ''social'', argument = ''I agree''\<rparr>]
     = length
       [\<lparr>round_num = 1, agent_id = ''economic'', agent_name = agent_title ''economic'', argument = ''I oppose''\<rparr>,
      \<lparr>round_num = 1, agent_id = ''social'', agent_name = agent_title ''social'', argument = ''I oppose''\<rparr>]
       + length [''economic'', ''social'']
   \<and> take 2
       [\<lparr>round_num = 1, agent_id = ''economic'', agent_name = agent_title ''economic'', argument = ''I oppose''\<rparr>,
      \<lparr>round_num = 1, agent_id = ''social'', agent_name = agent_title ''social'', argument = ''I oppose''\<rparr>,
      \<lparr>round_num = 2, agent_id = ''economic'', agent_name = agent_title ''economic'', argument = ''I agree''\<rparr>,
      \<lparr>round_num = 2, agent_id = ''social'', agent_name = agent_title ''social'', argument = ''I agree''\<rparr>]
     = [\<lparr>round_num = 1, agent_id = ''economic'', agent_name = agent_title ''economic'', argument = ''I oppose''\<rparr>,
      \<lparr>round_num = 1, agent_id = ''social'', agent_name = agent_title ''social'', argument = ''I oppose''\<rparr>]
   \<and> map (\<lambda>e. (round_num e, agent_id e)) (drop 2
       [\<lparr>round_num = 1, agent_id = ''economic'', agent_name = agent_title ''economic'', argument = ''I oppose''\<rparr>,
      \<lparr>round_num = 1, agent_id = ''social'', agent_name = agent_title ''social'', argument = ''I oppose''\<rparr>,
      \<lparr>round_num = 2, agent_id = ''economic'', agent_name = agent_title ''economic'', argument = ''I agree''\<rparr>,
      \<lparr>round_num = 2, agent_id = ''social'', agent_name = agent_title ''social'', argument = ''I agree''\<rparr>])
     = [(2, ''economic''), (2, ''social'')]
   \<and> phase_debate
      (\<lambda>c. Inr (if c = Debate_call 1 ''economic'' \<or> c = Debate_call 1 ''social'' then ''I oppose'' else ''I agree''))
      [''problem_statement'', ''economic'', ''social''] (new_system True)
     = (fst (phase_debate
      (\<lambda>c. Inr (if c = Debate_call 1 ''economic'' \<or> c = Debate_call 1 ''social'' then ''I oppose'' else ''I agree''))
      [''problem_statement'', ''economic'', ''social''] (new_system True)),
        Returned ())
   \<and> debate (sys_results (fst (phase_debate
      (\<lambda>c. Inr (if c = Debate_call 1 ''economic'' \<or> c = Debate_call 1 ''social'' then ''I oppose'' else ''I agree''))
      [''problem_statement'', ''economic'', ''social''] (new_system True))))
     = Some \<lparr>history =
     [\<lparr>round_num = 1, agent_id = ''economic'', agent_name = agent_title ''economic'', argument = ''I oppose''\<rparr>,
      \<lparr>round_num = 1, agent_id = ''social'', agent_name = agent_title ''social'', argument = ''I oppose''\<rparr>,
      \<lparr>round_num = 2, agent_id = ''economic'', agent_name = agent_title ''economic'', argument = ''I agree''\<rparr>,
      \<lparr>round_num = 2, agent_id = ''social'', agent_name = agent_title ''social'', argument = ''I agree''\<rparr>],
     rounds = 2, consensus_reached = True\<rparr>
   \<and> domain_experts [''problem_statement'', ''economic'', ''social''] = [''economic'', ''social'']
   \<and> (\<exists>s0 s1 ra. debate_agents
      (\<lambda>c. Inr (if c = Debate_call 1 ''economic'' \<or> c = Debate_call 1 ''social'' then ''I oppose'' else ''I agree''))
      2 [''economic'', ''social'']
     [\<lparr>round_num = 1, agent_id = ''economic'', agent_name = agent_title ''economic'', argument = ''I oppose''\<rparr>,
      \<lparr>round_num = 1, agent_id = ''social'', agent_name = agent_title ''social'', argument = ''I oppose''\<rparr>]
     [] s0
     = (s1, Returned
       ([\<lparr>round_num = 1, agent_id = ''economic'', agent_name = agent_title ''economic'', argument = ''I oppose''\<rparr>,
      \<lparr>round_num = 1, agent_id = ''social'', agent_name = agent_title ''social'', argument = ''I oppose''\<rparr>,
      \<lparr>round_num = 2, agent_id = ''economic'', agent_name = agent_title ''economic'', argument = ''I agree''\<rparr>,
      \<lparr>round_num = 2, agent_id = ''social'', agent_name = agent_title ''social'', argument = ''I agree''\<rparr>], ra)))"
proof -
  let ?W = "(\<lambda>c. Inr (if c = Debate_call 1 ''economic'' \<or> c = Debate_call 1 ''social'' then ''I oppose'' else ''I agree''))"
  let ?ags = "[''problem_statement'', ''economic'', ''social'']"
  let ?H2 = "[\<lparr>round_num = 1, agent_id = ''economic'', agent_name = agent_title ''economic'', argument = ''I oppose''\<rparr>,
      \<lparr>round_num = 1, agent_id = ''social'', agent_name = agent_title ''social'', argument = ''I oppose''\<rparr>]"
  let ?H4 = "[\<lparr>round_num = 1, agent_id = ''economic'', agent_name = agent_title ''economic'', argument = ''I oppose''\<rparr>,
      \<lparr>round_num = 1, agent_id = ''social'', agent_name = agent_title ''social'', argument = ''I oppose''\<rparr>,
      \<lparr>round_num = 2, agent_id = ''economic'', agent_name = agent_title ''economic'', argument = ''I agree''\<rparr>,
      \<lparr>round_num = 2, agent_id = ''social'', agent_name = agent_title ''social'', argument = ''I agree''\<rparr>]"
  note run = witness_two_rounds
  have ex: "domain_experts ?ags = [''economic'', ''social'']"
    by (simp add: domain_experts_def orchestration_roles_def)
  from debate_history_append_only
    [of ?W 2 "[''economic'', ''social'']" ?H2 "[]" "new_system True"
        "fst (debate_agents ?W 2 [''economic'', ''social''] ?H2 [] (new_system True))" ?H4 "[(''economic'', ''I agree''), (''social'', ''I agree'')]"
        ?ags "fst (phase_debate ?W ?ags (new_system True))" "()"]
    witness_second_round run(1)
  have a: "length ?H4 = length ?H2 + length [''economic'', ''social'']"
    "take (length ?H2) ?H4 = ?H2"
    "map (\<lambda>e. (round_num e, agent_id e)) (drop (length ?H2) ?H4) = map (\<lambda>a. (2, a)) [''economic'', ''social'']"
    and b: "\<exists>d. debate (sys_results (fst (phase_debate ?W ?ags (new_system True)))) = Some d
           \<and> (\<forall>r. 1 \<le> r \<and> r \<le> rounds d \<longrightarrow>
                (\<exists>s0 s1 ra. debate_agents ?W r (domain_experts ?ags)
                      (take ((r - 1) * length (domain_experts ?ags)) (history d)) [] s0
                   = (s1, Returned (take (r * length (domain_experts ?ags)) (history d), ra))))"
    by blast+
  from b obtain d where d: "debate (sys_results (fst (phase_debate ?W ?ags (new_system True)))) = Some d"
    and t: "\<forall>r. 1 \<le> r \<and> r \<le> rounds d \<longrightarrow>
                (\<exists>s0 s1 ra. debate_agents ?W r (domain_experts ?ags)
                      (take ((r - 1) * length (domain_experts ?ags)) (history d)) [] s0
                   = (s1, Returned (take (r * length (domain_experts ?ags)) (history d), ra)))"
    by blast
  from d run(2) have dd: "d = \<lparr>history =
     [\<lparr>round_num = 1, agent_id = ''economic'', agent_name = agent_title ''economic'', argument = ''I oppose''\<rparr>,
      \<lparr>round_num = 1, agent_id = ''social'', agent_name = agent_title ''social'', argument = ''I oppose''\<rparr>,
      \<lparr>round_num = 2, agent_id = ''economic'', agent_name = agent_title ''economic'', argument = ''I agree''\<rparr>,
      \<lparr>round_num = 2, agent_id = ''social'', agent_name = agent_title ''social'', argument = ''I agree''\<rparr>],
     rounds = 2, consensus_reached = True\<rparr>"
    by simp
  from t have "1 \<le> (2::nat) \<and> 2 \<le> rounds d \<longrightarrow>
      (\<exists>s0 s1 ra. debate_agents ?W 2 (domain_experts ?ags)
          (take ((2 - 1) * length (domain_experts ?ags)) (history d)) [] s0
        = (s1, Returned (take (2 * length (domain_experts ?ags)) (history d), ra)))"
    by blast
  then have c: "\<exists>s0 s1 ra. debate_agents ?W 2 [''economic'', ''social''] ?H2 [] s0 = (s1, Returned (?H4, ra))"
    unfolding dd ex by simp
  from a have a': "length ?H4 = length ?H2 + length [''economic'', ''social'']" "take 2 ?H4 = ?H2"
    "map (\<lambda>e. (round_num e, agent_id e)) (drop 2 ?H4) = [(2, ''economic''), (2, ''social'')]"
    by simp_all
  from witness_second_round a' run ex c show ?thesis by blast
qed

end
